theory Spec2Isabelle
  imports Complex_Main
begin

section \<open>Double-precision values\<close>

text \<open>
  The engine computes on C++ \<^verbatim>\<open>double\<close>. The model keeps the special values of IEEE 754
  (both infinities and a single NaN) and computes exactly on finite values: rounding,
  overflow of finite arithmetic and the sign of zero are not represented. A division by
  a zero divisor reads the zero as \<^verbatim>\<open>+0.0\<close>; where the code computes the divisor as
  \<^verbatim>\<open>-0.0\<close> (for example \<^verbatim>\<open>sigma * sqrt(T)\<close> with \<^verbatim>\<open>sigma < 0\<close> and \<^verbatim>\<open>T = 0\<close>) an infinite quotient
  has the opposite sign in the code. Comparisons with NaN are false, as in C++.
\<close>

datatype double = Fin real | PInf | NInf | NaN

instantiation double :: "{uminus, plus, minus, times, inverse, abs, ord}"
begin

fun uminus_double :: "double \<Rightarrow> double" where
  "uminus_double (Fin a) = Fin (- a)"
| "uminus_double PInf = NInf"
| "uminus_double NInf = PInf"
| "uminus_double NaN = NaN"

fun plus_double :: "double \<Rightarrow> double \<Rightarrow> double" where
  "plus_double (Fin a) (Fin b) = Fin (a + b)"
| "plus_double NaN _ = NaN"
| "plus_double _ NaN = NaN"
| "plus_double PInf NInf = NaN"
| "plus_double NInf PInf = NaN"
| "plus_double PInf _ = PInf"
| "plus_double _ PInf = PInf"
| "plus_double NInf _ = NInf"
| "plus_double _ NInf = NInf"

definition minus_double :: "double \<Rightarrow> double \<Rightarrow> double" where
  "minus_double a b = a + (- b)"

fun times_double :: "double \<Rightarrow> double \<Rightarrow> double" where
  "times_double (Fin a) (Fin b) = Fin (a * b)"
| "times_double NaN _ = NaN"
| "times_double _ NaN = NaN"
| "times_double (Fin a) PInf = (if a = 0 then NaN else if 0 < a then PInf else NInf)"
| "times_double (Fin a) NInf = (if a = 0 then NaN else if 0 < a then NInf else PInf)"
| "times_double PInf (Fin b) = (if b = 0 then NaN else if 0 < b then PInf else NInf)"
| "times_double NInf (Fin b) = (if b = 0 then NaN else if 0 < b then NInf else PInf)"
| "times_double PInf PInf = PInf"
| "times_double PInf NInf = NInf"
| "times_double NInf PInf = NInf"
| "times_double NInf NInf = PInf"

fun divide_double :: "double \<Rightarrow> double \<Rightarrow> double" where
  "divide_double (Fin a) (Fin b) =
     (if b = 0 then (if a = 0 then NaN else if 0 < a then PInf else NInf)
      else Fin (a / b))"
| "divide_double NaN _ = NaN"
| "divide_double _ NaN = NaN"
| "divide_double (Fin a) PInf = Fin 0"
| "divide_double (Fin a) NInf = Fin 0"
| "divide_double PInf (Fin b) = (if 0 \<le> b then PInf else NInf)"
| "divide_double NInf (Fin b) = (if 0 \<le> b then NInf else PInf)"
| "divide_double PInf PInf = NaN"
| "divide_double PInf NInf = NaN"
| "divide_double NInf PInf = NaN"
| "divide_double NInf NInf = NaN"

definition inverse_double :: "double \<Rightarrow> double" where
  "inverse_double a = divide (Fin 1) a"

fun abs_double :: "double \<Rightarrow> double" where
  "abs_double (Fin a) = Fin \<bar>a\<bar>"
| "abs_double PInf = PInf"
| "abs_double NInf = PInf"
| "abs_double NaN = NaN"

fun less_double :: "double \<Rightarrow> double \<Rightarrow> bool" where
  "less_double (Fin a) (Fin b) = (a < b)"
| "less_double NaN _ = False"
| "less_double _ NaN = False"
| "less_double _ NInf = False"
| "less_double PInf _ = False"
| "less_double NInf _ = True"
| "less_double (Fin a) PInf = True"

fun less_eq_double :: "double \<Rightarrow> double \<Rightarrow> bool" where
  "less_eq_double (Fin a) (Fin b) = (a \<le> b)"
| "less_eq_double NaN _ = False"
| "less_eq_double _ NaN = False"
| "less_eq_double NInf _ = True"
| "less_eq_double _ PInf = True"
| "less_eq_double _ NInf = False"
| "less_eq_double PInf _ = False"

instance ..

end

text \<open>\<^verbatim>\<open>std::sqrt\<close>, \<^verbatim>\<open>std::exp\<close>, \<^verbatim>\<open>std::log\<close> and \<^verbatim>\<open>std::pow\<close> with a non-negative
  integer exponent (the only use the engine makes of it).\<close>

fun dsqrt :: "double \<Rightarrow> double" where
  "dsqrt (Fin a) = (if a < 0 then NaN else Fin (sqrt a))"
| "dsqrt PInf = PInf"
| "dsqrt NInf = NaN"
| "dsqrt NaN = NaN"

fun dexp :: "double \<Rightarrow> double" where
  "dexp (Fin a) = Fin (exp a)"
| "dexp PInf = PInf"
| "dexp NInf = Fin 0"
| "dexp NaN = NaN"

fun dlog :: "double \<Rightarrow> double" where
  "dlog (Fin a) = (if a < 0 then NaN else if a = 0 then NInf else Fin (ln a))"
| "dlog PInf = PInf"
| "dlog NInf = NaN"
| "dlog NaN = NaN"

fun dpow :: "double \<Rightarrow> nat \<Rightarrow> double" where
  "dpow x 0 = Fin 1"
| "dpow (Fin a) (Suc n) = Fin (a ^ Suc n)"
| "dpow PInf (Suc n) = PInf"
| "dpow NInf (Suc n) = (if even n then NInf else PInf)"
| "dpow NaN (Suc n) = NaN"

text \<open>\<^verbatim>\<open>std::max(a, b)\<close> is \<^verbatim>\<open>(a < b) ? b : a\<close>; \<^verbatim>\<open>std::clamp(v, lo, hi)\<close> is
  \<^verbatim>\<open>(v < lo) ? lo : (hi < v) ? hi : v\<close>. Both hand a NaN first argument through.\<close>

definition std_max :: "double \<Rightarrow> double \<Rightarrow> double" where
  "std_max a b = (if a < b then b else a)"

definition std_clamp :: "double \<Rightarrow> double \<Rightarrow> double \<Rightarrow> double" where
  "std_clamp v lo hi = (if v < lo then lo else if hi < v then hi else v)"

definition is_finite :: "double \<Rightarrow> bool" where
  "is_finite x = (case x of Fin _ \<Rightarrow> True | _ \<Rightarrow> False)"

section \<open>Option contracts and results (pricing/types.h)\<close>

datatype OptionType = CALL | PUT

datatype ExerciseStyle = EUROPEAN | AMERICAN

text \<open>The fields \<^verbatim>\<open>S, K, T, r, sigma, q, type, style\<close> of \<^verbatim>\<open>OptionParams\<close>, prefixed
  as the code reads them (\<^verbatim>\<open>p.S\<close>).\<close>

record OptionParams =
  p_S :: double
  p_K :: double
  p_T :: double
  p_r :: double
  p_sigma :: double
  p_q :: double
  p_type :: OptionType
  p_style :: ExerciseStyle

text \<open>\<^verbatim>\<open>PricingResult\<close> without \<^verbatim>\<open>elapsed_ms\<close>, which is wall-clock time; the field
  \<^verbatim>\<open>method\<close> is \<open>method_label\<close>.\<close>

record PricingResult =
  price :: double
  std_error :: double
  method_label :: string
  paths :: int

definition intrinsic_value :: "double \<Rightarrow> double \<Rightarrow> OptionType \<Rightarrow> double" where
  "intrinsic_value S K ty =
     (if ty = CALL then std_max (S - K) (Fin 0) else std_max (K - S) (Fin 0))"

section \<open>Normal distribution (utils/normal_dist.h)\<close>

definition norm_cdf :: "double \<Rightarrow> double" where
  "norm_cdf x0 =
     (if Fin 8 < x0 then Fin 1
      else if x0 < Fin (- 8) then Fin 0
      else
        let a1 = Fin 0.254829592;
            a2 = Fin (- 0.284496736);
            a3 = Fin 1.421413741;
            a4 = Fin (- 1.453152027);
            a5 = Fin 1.061405429;
            p = Fin 0.3275911;
            sign = (if Fin 0 \<le> x0 then Fin 1 else Fin (- 1));
            x = \<bar>x0\<bar> / dsqrt (Fin 2);
            t = Fin 1 / (Fin 1 + p * x);
            y = Fin 1 - (((((a5 * t + a4) * t) + a3) * t + a2) * t + a1) * t * dexp ((- x) * x)
        in Fin 0.5 * (Fin 1 + sign * y))"

definition norm_pdf :: "double \<Rightarrow> double" where
  "norm_pdf x = Fin 0.3989422804014327 * dexp (Fin (- 0.5) * x * x)"

section \<open>Closed-form pricer (pricing/black_scholes.h)\<close>

definition calc_d1 :: "OptionParams \<Rightarrow> double" where
  "calc_d1 p =
     (dlog (p_S p / p_K p) + (p_r p - p_q p + Fin 0.5 * p_sigma p * p_sigma p) * p_T p) /
     (p_sigma p * dsqrt (p_T p))"

definition BlackScholes_price :: "OptionParams \<Rightarrow> PricingResult" where
  "BlackScholes_price p =
     (let d1 = calc_d1 p;
          d2 = d1 - p_sigma p * dsqrt (p_T p);
          df = dexp ((- p_r p) * p_T p);
          fwd_factor = dexp ((- p_q p) * p_T p);
          pr = (if p_type p = CALL
                then p_S p * fwd_factor * norm_cdf d1 - p_K p * df * norm_cdf d2
                else p_K p * df * norm_cdf (- d2) - p_S p * fwd_factor * norm_cdf (- d1))
      in \<lparr>price = pr, std_error = Fin 0, method_label = ''Black-Scholes'', paths = 0\<rparr>)"

definition BlackScholes_vega :: "OptionParams \<Rightarrow> double" where
  "BlackScholes_vega p =
     (let d1 = calc_d1 p;
          fwd = dexp ((- p_q p) * p_T p)
      in p_S p * fwd * norm_pdf d1 * dsqrt (p_T p) / Fin 100)"

section \<open>Implied-volatility solver (calibration/implied_vol.h)\<close>

text \<open>
  The Newton-Raphson loop of \<^verbatim>\<open>ImpliedVolSolver::solve\<close>, from loop index \<open>i\<close> and iterate
  \<open>sigma\<close>. The second component is \<open>Some sigma\<close> when the loop executes
  \<^verbatim>\<open>return sigma\<close> and \<open>None\<close> when it is left by \<^verbatim>\<open>break\<close> or by its condition; the first
  component counts the loop bodies entered.
\<close>

function newton_loop ::
  "double \<Rightarrow> double \<Rightarrow> double \<Rightarrow> double \<Rightarrow> double \<Rightarrow> double \<Rightarrow> OptionType \<Rightarrow> double \<Rightarrow> int
     \<Rightarrow> int \<Rightarrow> double \<Rightarrow> nat \<times> double option"
where
  "newton_loop market_price S K T r q ty tol max_iter i sigma =
     (if i < max_iter then
        (let p = \<lparr>p_S = S, p_K = K, p_T = T, p_r = r, p_sigma = sigma, p_q = q,
                  p_type = ty, p_style = EUROPEAN\<rparr>;
             model_price = price (BlackScholes_price p);
             vega = BlackScholes_vega p * Fin 100;
             diff = model_price - market_price
         in if \<bar>diff\<bar> < tol then (nat i + 1, Some sigma)
            else if \<bar>vega\<bar> < Fin (1 / 10 ^ 12) then (nat i + 1, None)
            else newton_loop market_price S K T r q ty tol max_iter (i + 1)
                   (std_clamp (sigma - diff / vega) (Fin 0.001) (Fin 10)))
      else (nat i, None))"
  by pat_completeness auto
termination
  by (relation "measure (\<lambda>(market_price, S, K, T, r, q, ty, tol, max_iter, i, sigma).
        nat (max_iter - i))") auto

declare newton_loop.simps [simp del]

text \<open>The loop of \<^verbatim>\<open>bisection_solve\<close>, from loop index \<open>i\<close> and bracket \<open>[lo, hi]\<close>:
  the number of loop bodies entered and the value returned.\<close>

function bisection_loop ::
  "double \<Rightarrow> double \<Rightarrow> double \<Rightarrow> double \<Rightarrow> double \<Rightarrow> double \<Rightarrow> OptionType \<Rightarrow> double
     \<Rightarrow> int \<Rightarrow> double \<Rightarrow> double \<Rightarrow> nat \<times> double"
where
  "bisection_loop market_price S K T r q ty tol i lo hi =
     (if i < 200 then
        (let mid = (lo + hi) / Fin 2;
             p = \<lparr>p_S = S, p_K = K, p_T = T, p_r = r, p_sigma = mid, p_q = q,
                  p_type = ty, p_style = EUROPEAN\<rparr>;
             model_price = price (BlackScholes_price p)
         in if \<bar>model_price - market_price\<bar> < tol then (nat i + 1, mid)
            else if model_price > market_price
              then bisection_loop market_price S K T r q ty tol (i + 1) lo mid
              else bisection_loop market_price S K T r q ty tol (i + 1) mid hi)
      else (nat i, (lo + hi) / Fin 2))"
  by pat_completeness auto
termination
  by (relation "measure (\<lambda>(market_price, S, K, T, r, q, ty, tol, i, lo, hi). nat (200 - i))") auto

declare bisection_loop.simps [simp del]

definition bisection_solve ::
  "double \<Rightarrow> double \<Rightarrow> double \<Rightarrow> double \<Rightarrow> double \<Rightarrow> double \<Rightarrow> OptionType \<Rightarrow> double \<Rightarrow> double"
where
  "bisection_solve market_price S K T r q ty tol =
     snd (bisection_loop market_price S K T r q ty tol 0 (Fin 0.001) (Fin 5))"

text \<open>The initial guess of \<^verbatim>\<open>solve\<close> (Brenner-Subrahmanyam, clamped); \<^verbatim>\<open>M_PI\<close> is \<open>pi\<close>.\<close>

definition initial_guess :: "double \<Rightarrow> double \<Rightarrow> double \<Rightarrow> double" where
  "initial_guess market_price S T =
     (let sigma = dsqrt (Fin 2 * Fin pi / T) * market_price / S
      in std_clamp sigma (Fin 0.01) (Fin 5))"

definition solve ::
  "double \<Rightarrow> double \<Rightarrow> double \<Rightarrow> double \<Rightarrow> double \<Rightarrow> double \<Rightarrow> OptionType \<Rightarrow> double \<Rightarrow> int
     \<Rightarrow> double"
where
  "solve market_price S K T r q ty tol max_iter =
     (case snd (newton_loop market_price S K T r q ty tol max_iter 0
                  (initial_guess market_price S T)) of
        Some sigma \<Rightarrow> sigma
      | None \<Rightarrow> bisection_solve market_price S K T r q ty tol)"

section \<open>Failures\<close>

text \<open>
  \<open>InvalidParameter\<close> and \<open>UnstableDiscretization\<close> are the failures the specification
  names. The engine contains no \<^verbatim>\<open>throw\<close> statement: the only ways a call does not return
  are the \<^verbatim>\<open>std::length_error\<close> of a \<^verbatim>\<open>std::vector\<close> built with a negative size
  (\<open>LengthError\<close>) and the read of element 0 of an empty vector (\<open>OutOfBounds\<close>).
\<close>

datatype failure = InvalidParameter | UnstableDiscretization | LengthError | OutOfBounds

text \<open>\<^verbatim>\<open>BlackScholes::price\<close> has a single exit, its \<^verbatim>\<open>return\<close> statement.\<close>

definition BlackScholes_price_outcome :: "OptionParams \<Rightarrow> failure + PricingResult" where
  "BlackScholes_price_outcome p = Inr (BlackScholes_price p)"

text \<open>\<^verbatim>\<open>std::to_string\<close> on an \<^verbatim>\<open>int\<close>.\<close>

function dec_digits :: "nat \<Rightarrow> string" where
  "dec_digits n =
     (if n < 10 then [char_of (48 + n)]
      else dec_digits (n div 10) @ [char_of (48 + n mod 10)])"
  by pat_completeness auto
termination
  by (relation "measure id") auto

declare dec_digits.simps [simp del]

definition to_string :: "int \<Rightarrow> string" where
  "to_string n = (if n < 0 then CHR ''-'' # dec_digits (nat (- n)) else dec_digits (nat n))"

section \<open>Binomial tree (pricing/binomial_tree.h)\<close>

text \<open>The locals \<^verbatim>\<open>dt\<close>, \<^verbatim>\<open>u\<close>, \<^verbatim>\<open>d\<close>, \<^verbatim>\<open>df\<close> and \<^verbatim>\<open>prob\<close> of \<^verbatim>\<open>BinomialTree::price\<close>.\<close>

definition tree_dt :: "OptionParams \<Rightarrow> int \<Rightarrow> double" where
  "tree_dt p steps = p_T p / Fin (real_of_int steps)"

definition tree_u :: "OptionParams \<Rightarrow> int \<Rightarrow> double" where
  "tree_u p steps = dexp (p_sigma p * dsqrt (tree_dt p steps))"

definition tree_d :: "OptionParams \<Rightarrow> int \<Rightarrow> double" where
  "tree_d p steps = Fin 1 / tree_u p steps"

definition tree_df :: "OptionParams \<Rightarrow> int \<Rightarrow> double" where
  "tree_df p steps = dexp ((- p_r p) * tree_dt p steps)"

definition tree_prob :: "OptionParams \<Rightarrow> int \<Rightarrow> double" where
  "tree_prob p steps =
     (dexp ((p_r p - p_q p) * tree_dt p steps) - tree_d p steps) /
     (tree_u p steps - tree_d p steps)"

text \<open>The terminal payoffs at the \<open>steps + 1\<close> leaves.\<close>

definition terminal_payoffs :: "OptionParams \<Rightarrow> double \<Rightarrow> double \<Rightarrow> nat \<Rightarrow> double list" where
  "terminal_payoffs p u d steps =
     map (\<lambda>i. intrinsic_value (p_S p * dpow u (steps - i) * dpow d i) (p_K p) (p_type p))
       [0..<steps + 1]"

text \<open>The inner loop of the backward induction, \<^verbatim>\<open>for (i = 0; i <= step; ++i)\<close>, which
  overwrites \<^verbatim>\<open>prices[i]\<close> in place.\<close>

function level_sweep ::
  "OptionParams \<Rightarrow> double \<Rightarrow> double \<Rightarrow> double \<Rightarrow> double \<Rightarrow> nat \<Rightarrow> nat \<Rightarrow> double list
     \<Rightarrow> double list"
where
  "level_sweep p u d df prob step i prices =
     (if i \<le> step then
        (let continuation = df * (prob * prices ! i + (Fin 1 - prob) * prices ! (i + 1));
             v = (if p_style p = AMERICAN
                  then (let spot = p_S p * dpow u (step - i) * dpow d i;
                            exercise = intrinsic_value spot (p_K p) (p_type p)
                        in std_max continuation exercise)
                  else continuation)
         in level_sweep p u d df prob step (i + 1) (prices[i := v]))
      else prices)"
  by pat_completeness auto
termination
  by (relation "measure (\<lambda>(p, u, d, df, prob, step, i, prices). Suc step - i)") auto

declare level_sweep.simps [simp del]

text \<open>The outer loop, \<^verbatim>\<open>for (step = steps - 1; step >= 0; --step)\<close>; the argument is
  \<open>step + 1\<close>.\<close>

fun backward_induction ::
  "OptionParams \<Rightarrow> double \<Rightarrow> double \<Rightarrow> double \<Rightarrow> double \<Rightarrow> nat \<Rightarrow> double list \<Rightarrow> double list"
where
  "backward_induction p u d df prob 0 prices = prices"
| "backward_induction p u d df prob (Suc step) prices =
     backward_induction p u d df prob step (level_sweep p u d df prob step 0 prices)"

text \<open>
  \<^verbatim>\<open>steps\<close> is a 32-bit \<^verbatim>\<open>int\<close>. The size \<^verbatim>\<open>steps + 1\<close> of \<^verbatim>\<open>prices\<close> is an \<^verbatim>\<open>int\<close> sum: at
  \<^verbatim>\<open>steps = 2147483647\<close> it overflows and wraps to \<open>-2147483648\<close>, and a negative size makes
  the constructor throw. The allocation itself is taken to succeed.
\<close>

definition int32 :: "int \<Rightarrow> int" where
  "int32 x = (x + 2147483648) mod 4294967296 - 2147483648"

definition BinomialTree_price :: "OptionParams \<Rightarrow> int \<Rightarrow> failure + PricingResult" where
  "BinomialTree_price p steps =
     (if int32 (steps + 1) < 0 then Inl LengthError
      else if int32 (steps + 1) = 0 then Inl OutOfBounds
      else
        let u = tree_u p steps;
            d = tree_d p steps;
            df = tree_df p steps;
            prob = tree_prob p steps;
            prices = backward_induction p u d df prob (nat steps)
                       (terminal_payoffs p u d (nat steps))
        in Inr \<lparr>price = prices ! 0, std_error = Fin 0,
                 method_label = ''Binomial-'' @ to_string steps, paths = 0\<rparr>)"

section \<open>Inverse normal CDF (utils/normal_dist.h)\<close>

definition norm_inv :: "double \<Rightarrow> double" where
  "norm_inv u =
     (if u \<le> Fin 0 then Fin (- 8)
      else if Fin 1 \<le> u then Fin 8
      else
        let a0 = Fin (- 39.69683028665376); a1 = Fin 220.9460984245205;
            a2 = Fin (- 275.9285104469687); a3 = Fin 138.3577518672690;
            a4 = Fin (- 30.66479806614716); a5 = Fin 2.506628277459239;
            b0 = Fin (- 54.47609879822406); b1 = Fin 161.5858368580409;
            b2 = Fin (- 155.6989798598866); b3 = Fin 66.80131188771972;
            b4 = Fin (- 13.28068155288572);
            c0 = Fin (- 0.007784894002430293); c1 = Fin (- 0.3223964580411365);
            c2 = Fin (- 2.400758277161838); c3 = Fin (- 2.549732539343734);
            c4 = Fin 4.374664141464968; c5 = Fin 2.938163982698783;
            d0 = Fin 0.007784695709041462; d1 = Fin 0.3224671290700398;
            d2 = Fin 2.445134137142996; d3 = Fin 3.754408661907416
        in if u < Fin 0.02425 then
             (let q = dsqrt (Fin (- 2) * dlog u)
              in (((((c0 * q + c1) * q + c2) * q + c3) * q + c4) * q + c5) /
                 ((((d0 * q + d1) * q + d2) * q + d3) * q + Fin 1))
           else if u \<le> Fin 0.97575 then
             (let q = u - Fin 0.5;
                  r = q * q
              in (((((a0 * r + a1) * r + a2) * r + a3) * r + a4) * r + a5) * q /
                 (((((b0 * r + b1) * r + b2) * r + b3) * r + b4) * r + Fin 1))
           else
             (let q = dsqrt (Fin (- 2) * dlog (Fin 1 - u))
              in (- (((((c0 * q + c1) * q + c2) * q + c3) * q + c4) * q + c5)) /
                 ((((d0 * q + d1) * q + d2) * q + d3) * q + Fin 1)))"

section \<open>Random sequences (utils/random_gen.h)\<close>

text \<open>
  \<^verbatim>\<open>std::mt19937_64\<close> and the distribution objects belong to the C++ library. A generator
  takes their effect as the parameter \<open>draw\<close>: \<open>draw k\<close> is the value of the \<open>k\<close>-th call
  \<^verbatim>\<open>dist(rng)\<close> (or \<^verbatim>\<open>unif(rng)\<close>) on the engine seeded with \<^verbatim>\<open>seed\<close>, counting from 0.
  A negative \<open>n\<close> makes the constructor of \<^verbatim>\<open>samples\<close> throw.
\<close>

definition generate_normals :: "int \<Rightarrow> (nat \<Rightarrow> double) \<Rightarrow> failure + double list" where
  "generate_normals n draw =
     (if n < 0 then Inl LengthError else Inr (map draw [0..<nat n]))"

text \<open>The loop \<^verbatim>\<open>for (i = 0; i < half; ++i)\<close> of \<^verbatim>\<open>generate_antithetic\<close>.\<close>

function antithetic_fill :: "(nat \<Rightarrow> double) \<Rightarrow> nat \<Rightarrow> nat \<Rightarrow> double list \<Rightarrow> double list" where
  "antithetic_fill draw half i samples =
     (if i < half then
        (let z = draw i
         in antithetic_fill draw half (i + 1) (samples[2 * i := z, 2 * i + 1 := - z]))
      else samples)"
  by pat_completeness auto
termination
  by (relation "measure (\<lambda>(draw, half, i, samples). half - i)") auto

declare antithetic_fill.simps [simp del]

definition generate_antithetic :: "int \<Rightarrow> (nat \<Rightarrow> double) \<Rightarrow> failure + double list" where
  "generate_antithetic n draw =
     (if n < 0 then Inl LengthError
      else
        let half = nat (n div 2);
            samples = antithetic_fill draw half 0 (replicate (nat n) (Fin 0))
        in Inr (if n mod 2 \<noteq> 0 then samples[nat (n - 1) := draw half] else samples))"

definition generate_stratified :: "int \<Rightarrow> (nat \<Rightarrow> double) \<Rightarrow> failure + double list" where
  "generate_stratified n draw =
     (if n < 0 then Inl LengthError
      else Inr (map (\<lambda>i. norm_inv ((Fin (real i) + draw i) / Fin (real_of_int n)))
                  [0..<nat n]))"

section \<open>Monte Carlo engine (monte_carlo/mc_engine.h)\<close>

datatype VarianceReduction = NONE | ANTITHETIC | STRATIFIED | CONTROL_VARIATE

text \<open>The \<^verbatim>\<open>switch\<close> that fills \<^verbatim>\<open>z\<close>.\<close>

definition mc_samples ::
  "VarianceReduction \<Rightarrow> int \<Rightarrow> (nat \<Rightarrow> double) \<Rightarrow> failure + double list"
where
  "mc_samples vr num_paths draw =
     (case vr of
        ANTITHETIC \<Rightarrow> generate_antithetic num_paths draw
      | STRATIFIED \<Rightarrow> generate_stratified num_paths draw
      | _ \<Rightarrow> generate_normals num_paths draw)"

text \<open>\<^verbatim>\<open>std::accumulate(first, last, 0.0)\<close> and the loop
  \<^verbatim>\<open>for (double a : xs) var += (a - m) * (a - m)\<close> from \<^verbatim>\<open>var = 0.0\<close>.\<close>

definition accumulate :: "double list \<Rightarrow> double" where
  "accumulate xs = foldl (+) (Fin 0) xs"

definition sum_sq_dev :: "double list \<Rightarrow> double \<Rightarrow> double" where
  "sum_sq_dev xs m = foldl (\<lambda>var a. var + (a - m) * (a - m)) (Fin 0) xs"

text \<open>The terminal price \<^verbatim>\<open>p.S * exp(drift + vol_sqrt_dt * z[i])\<close> of one path (\<^verbatim>\<open>dt = p.T\<close>),
  the vectors \<^verbatim>\<open>payoffs\<close> and \<^verbatim>\<open>terminals\<close>; the parallel loops write slot \<open>i\<close> from
  \<open>z[i]\<close> only.\<close>

definition mc_terminal :: "OptionParams \<Rightarrow> double \<Rightarrow> double" where
  "mc_terminal p zi =
     (let dt = p_T p;
          drift = (p_r p - p_q p - Fin 0.5 * p_sigma p * p_sigma p) * dt;
          vol_sqrt_dt = p_sigma p * dsqrt dt
      in p_S p * dexp (drift + vol_sqrt_dt * zi))"

definition mc_payoffs :: "OptionParams \<Rightarrow> nat \<Rightarrow> double list \<Rightarrow> double list" where
  "mc_payoffs p n z =
     map (\<lambda>i. intrinsic_value (mc_terminal p (z ! i)) (p_K p) (p_type p)) [0..<n]"

definition mc_terminals :: "OptionParams \<Rightarrow> nat \<Rightarrow> double list \<Rightarrow> double list" where
  "mc_terminals p n z = map (\<lambda>i. mc_terminal p (z ! i)) [0..<n]"

text \<open>The regression coefficient \<^verbatim>\<open>beta\<close> and the vector \<^verbatim>\<open>adjusted\<close> of the control-variate
  branch.\<close>

definition cv_beta :: "double list \<Rightarrow> double list \<Rightarrow> nat \<Rightarrow> double" where
  "cv_beta terminals payoffs n =
     (let mean_terminal = accumulate terminals / Fin (real n);
          mean_payoff = accumulate payoffs / Fin (real n);
          (cov, var_control) =
             foldl (\<lambda>(cov, var_control) i.
                      let dc = terminals ! i - mean_terminal;
                          dp = payoffs ! i - mean_payoff
                      in (cov + dc * dp, var_control + dc * dc))
               (Fin 0, Fin 0) [0..<n]
      in if var_control > Fin 0 then cov / var_control else Fin 0)"

definition cv_adjusted :: "OptionParams \<Rightarrow> nat \<Rightarrow> double list \<Rightarrow> double list" where
  "cv_adjusted p n z =
     (let fwd = p_S p * dexp ((p_r p - p_q p) * p_T p);
          terminals = mc_terminals p n z;
          payoffs = mc_payoffs p n z;
          beta = cv_beta terminals payoffs n
      in map (\<lambda>i. payoffs ! i - beta * (terminals ! i - fwd)) [0..<n])"

text \<open>\<^verbatim>\<open>price_est\<close> and \<^verbatim>\<open>std_err\<close> of \<^verbatim>\<open>MonteCarloEngine::price\<close>, from the samples \<open>z\<close>.\<close>

definition mc_estimate ::
  "OptionParams \<Rightarrow> nat \<Rightarrow> VarianceReduction \<Rightarrow> double list \<Rightarrow> double \<times> double"
where
  "mc_estimate p n vr z =
     (let df = dexp ((- p_r p) * p_T p)
      in if vr = CONTROL_VARIATE then
           (let adjusted = cv_adjusted p n z;
                sum = accumulate adjusted;
                price_est = df * sum / Fin (real n);
                adj_mean = sum / Fin (real n);
                var = sum_sq_dev adjusted adj_mean / Fin (real_of_int (int n - 1))
            in (price_est, df * dsqrt (var / Fin (real n))))
         else
           (let payoffs = mc_payoffs p n z;
                sum = accumulate payoffs;
                mean = sum / Fin (real n);
                price_est = df * mean;
                var = sum_sq_dev payoffs mean / Fin (real_of_int (int n - 1))
            in (price_est, df * dsqrt (var / Fin (real n)))))"

definition mc_method :: "VarianceReduction \<Rightarrow> string" where
  "mc_method vr =
     ''Monte Carlo'' @
     (case vr of
        ANTITHETIC \<Rightarrow> '' (Antithetic)''
      | STRATIFIED \<Rightarrow> '' (Stratified)''
      | CONTROL_VARIATE \<Rightarrow> '' (Control Variate)''
      | NONE \<Rightarrow> [])"

definition MonteCarloEngine_price ::
  "OptionParams \<Rightarrow> int \<Rightarrow> VarianceReduction \<Rightarrow> (nat \<Rightarrow> double) \<Rightarrow> failure + PricingResult"
where
  "MonteCarloEngine_price p num_paths vr draw =
     (if num_paths < 0 then Inl LengthError
      else
        case mc_samples vr num_paths draw of
          Inl e \<Rightarrow> Inl e
        | Inr z \<Rightarrow>
            (let (price_est, std_err) = mc_estimate p (nat num_paths) vr z
             in Inr \<lparr>price = std_max price_est (Fin 0), std_error = std_err,
                      method_label = mc_method vr, paths = num_paths\<rparr>))"

text \<open>
  \<^verbatim>\<open>price_multistep\<close>. Each thread draws from its own engine; \<open>draw i t\<close> is the normal
  sample that the thread which simulates path \<open>i\<close> obtains for step \<open>t\<close> of that path.
\<close>

definition walk_path :: "OptionParams \<Rightarrow> double \<Rightarrow> double \<Rightarrow> int \<Rightarrow> (nat \<Rightarrow> double) \<Rightarrow> double" where
  "walk_path p drift vol_sqrt_dt num_steps zs =
     foldl (\<lambda>S t. S * dexp (drift + vol_sqrt_dt * zs t)) (p_S p) [0..<nat num_steps]"

definition MonteCarloEngine_price_multistep ::
  "OptionParams \<Rightarrow> int \<Rightarrow> int \<Rightarrow> (nat \<Rightarrow> nat \<Rightarrow> double) \<Rightarrow> failure + PricingResult"
where
  "MonteCarloEngine_price_multistep p num_paths num_steps draw =
     (if num_paths < 0 then Inl LengthError
      else
        let dt = p_T p / Fin (real_of_int num_steps);
            drift = (p_r p - p_q p - Fin 0.5 * p_sigma p * p_sigma p) * dt;
            vol_sqrt_dt = p_sigma p * dsqrt dt;
            df = dexp ((- p_r p) * p_T p);
            payoffs = map (\<lambda>i. intrinsic_value
                                 (walk_path p drift vol_sqrt_dt num_steps (draw i))
                                 (p_K p) (p_type p))
                        [0..<nat num_paths];
            sum = accumulate payoffs;
            mean = sum / Fin (real_of_int num_paths);
            price_est = df * mean;
            var = sum_sq_dev payoffs mean / Fin (real_of_int (num_paths - 1));
            std_err = df * dsqrt (var / Fin (real_of_int num_paths))
        in Inr \<lparr>price = std_max price_est (Fin 0), std_error = std_err,
                 method_label = ''MC MultiStep ('' @ to_string num_steps @ '' steps)'',
                 paths = num_paths\<rparr>)"

section \<open>Surface calibration (calibration/vol_surface.h)\<close>

record MarketQuote =
  q_strike :: double
  q_expiry :: double
  q_market_price :: double
  q_type :: OptionType

record VolSurfacePoint =
  pt_strike :: double
  pt_expiry :: double
  pt_implied_vol :: double
  pt_market_price :: double
  pt_model_price :: double
  pt_error :: double

text \<open>\<^verbatim>\<open>CalibrationResult\<close> without \<^verbatim>\<open>elapsed_ms\<close>.\<close>

record CalibrationResult =
  surface :: "VolSurfacePoint list"
  total_rmse :: double
  max_error :: double
  iterations :: int

text \<open>The point that one iteration of the calibration loop stores for the quote \<open>q\<close>;
  \<^verbatim>\<open>solve\<close> runs with its default tolerance \<^verbatim>\<open>1e-8\<close> and budget 100.\<close>

definition calibrate_point :: "MarketQuote \<Rightarrow> double \<Rightarrow> double \<Rightarrow> double \<Rightarrow> VolSurfacePoint" where
  "calibrate_point q spot rate div_yield =
     (let iv = solve (q_market_price q) spot (q_strike q) (q_expiry q) rate div_yield (q_type q)
                 (Fin (1 / 10 ^ 8)) 100;
          p = \<lparr>p_S = spot, p_K = q_strike q, p_T = q_expiry q, p_r = rate, p_sigma = iv,
               p_q = div_yield, p_type = q_type q, p_style = EUROPEAN\<rparr>;
          model_price = price (BlackScholes_price p);
          err = \<bar>model_price - q_market_price q\<bar>
      in \<lparr>pt_strike = q_strike q, pt_expiry = q_expiry q, pt_implied_vol = iv,
           pt_market_price = q_market_price q, pt_model_price = model_price,
           pt_error = err\<rparr>)"

text \<open>The loop \<^verbatim>\<open>for (i = 0; i < quotes.size(); ++i)\<close>. Its iterations run in parallel;
  iteration \<open>i\<close> reads \<^verbatim>\<open>quotes[i]\<close> and writes \<^verbatim>\<open>result.surface[i]\<close> only, so the order in
  which they run does not show in the result, and the model runs them by index.\<close>

function calibrate_fill ::
  "MarketQuote list \<Rightarrow> double \<Rightarrow> double \<Rightarrow> double \<Rightarrow> nat \<Rightarrow> VolSurfacePoint list
     \<Rightarrow> VolSurfacePoint list"
where
  "calibrate_fill quotes spot rate div_yield i surf =
     (if i < length quotes
      then calibrate_fill quotes spot rate div_yield (i + 1)
             (surf[i := calibrate_point (quotes ! i) spot rate div_yield])
      else surf)"
  by pat_completeness auto
termination
  by (relation "measure (\<lambda>(quotes, spot, rate, div_yield, i, surf). length quotes - i)") auto

declare calibrate_fill.simps [simp del]

text \<open>A value-initialised \<^verbatim>\<open>VolSurfacePoint\<close>, as \<^verbatim>\<open>resize\<close> leaves it.\<close>

definition zero_point :: VolSurfacePoint where
  "zero_point = \<lparr>pt_strike = Fin 0, pt_expiry = Fin 0, pt_implied_vol = Fin 0,
     pt_market_price = Fin 0, pt_model_price = Fin 0, pt_error = Fin 0\<rparr>"

definition calibrate ::
  "MarketQuote list \<Rightarrow> double \<Rightarrow> double \<Rightarrow> double \<Rightarrow> CalibrationResult"
where
  "calibrate quotes spot rate div_yield =
     (let surf = calibrate_fill quotes spot rate div_yield 0
                   (replicate (length quotes) zero_point);
          (sse, max_err) =
             foldl (\<lambda>(sse, max_err) pt.
                      (sse + pt_error pt * pt_error pt, std_max max_err (pt_error pt)))
               (Fin 0, Fin 0) surf
      in \<lparr>surface = surf,
           total_rmse = dsqrt (sse / Fin (real (length surf))),
           max_error = max_err,
           iterations = int (length quotes)\<rparr>)"

section \<open>Predicates used in the proofs\<close>

text \<open>An iterate of the Newton loop is NaN or a number of \<open>[0.001, 10]\<close>.\<close>

definition vol_ok :: "double \<Rightarrow> bool" where
  "vol_ok s = (s = NaN \<or> (\<exists>x. s = Fin x \<and> 1 / 1000 \<le> x \<and> x \<le> 10))"

text \<open>The number carried by a finite double.\<close>

fun valof :: "double \<Rightarrow> real" where
  "valof (Fin a) = a"
| "valof PInf = 0"
| "valof NInf = 0"
| "valof NaN = 0"

definition positive_finite :: "double \<Rightarrow> bool" where
  "positive_finite x = (case x of Fin a \<Rightarrow> 0 < a | _ \<Rightarrow> False)"

text \<open>The value \<^verbatim>\<open>y\<close> that \<^verbatim>\<open>norm_cdf\<close> computes from the scaled argument \<^verbatim>\<open>x\<close>, on real
  numbers.\<close>

definition erf_approx :: "real \<Rightarrow> real" where
  "erf_approx x =
     (let t = 1 / (1 + 0.3275911 * x)
      in 1 - (((((1.061405429 * t + (- 1.453152027)) * t) + 1.421413741) * t
                + (- 0.284496736)) * t + 0.254829592) * t * exp ((- x) * x))"




text \<open>
  The estimators in the words of the specification: the discount factor \<open>e^{-rT}\<close>, the
  sample mean, the sample standard deviation with divisor \<open>N - 1\<close>, and the payoffs they
  are taken of (the beta-adjusted payoffs for Control Variate, the per-path payoffs
  otherwise).
\<close>

definition discount :: "OptionParams \<Rightarrow> double" where
  "discount p = dexp ((- p_r p) * p_T p)"

definition sample_mean :: "double list \<Rightarrow> double" where
  "sample_mean xs = accumulate xs / Fin (real (length xs))"

definition sample_std :: "double list \<Rightarrow> double" where
  "sample_std xs =
     dsqrt (sum_sq_dev xs (sample_mean xs) / Fin (real_of_int (int (length xs) - 1)))"

definition estimator_payoffs ::
  "OptionParams \<Rightarrow> nat \<Rightarrow> VarianceReduction \<Rightarrow> double list \<Rightarrow> double list"
where
  "estimator_payoffs p n vr z =
     (if vr = CONTROL_VARIATE then cv_adjusted p n z else mc_payoffs p n z)"

text \<open>
  Bisection in the words of the specification. \<open>model_price_at\<close> is the model price the
  solver computes for a volatility; \<open>halve\<close> narrows a bracket once, by comparing the
  model price at the midpoint against the market price; \<open>bisection_fixed\<close> halves a fixed
  number of times and returns the midpoint of the final bracket.
\<close>

definition model_price_at ::
  "double \<Rightarrow> double \<Rightarrow> double \<Rightarrow> double \<Rightarrow> double \<Rightarrow> OptionType \<Rightarrow> double \<Rightarrow> double"
where
  "model_price_at S K T r q ty sigma =
     price (BlackScholes_price \<lparr>p_S = S, p_K = K, p_T = T, p_r = r, p_sigma = sigma, p_q = q,
                                  p_type = ty, p_style = EUROPEAN\<rparr>)"

definition midpoint :: "double \<times> double \<Rightarrow> double" where
  "midpoint b = (fst b + snd b) / Fin 2"

definition halve ::
  "double \<Rightarrow> double \<Rightarrow> double \<Rightarrow> double \<Rightarrow> double \<Rightarrow> double \<Rightarrow> OptionType \<Rightarrow> double \<times> double
     \<Rightarrow> double \<times> double"
where
  "halve market_price S K T r q ty b =
     (if model_price_at S K T r q ty (midpoint b) > market_price
      then (fst b, midpoint b) else (midpoint b, snd b))"

definition bisection_fixed ::
  "double \<Rightarrow> double \<Rightarrow> double \<Rightarrow> double \<Rightarrow> double \<Rightarrow> double \<Rightarrow> OptionType \<Rightarrow> nat \<Rightarrow> double
     \<Rightarrow> double \<Rightarrow> double"
where
  "bisection_fixed market_price S K T r q ty n lo hi =
     midpoint ((halve market_price S K T r q ty ^^ n) (lo, hi))"

section \<open>Verification\<close>

subsection \<open>NaN propagates through the arithmetic and the pricer\<close>

lemma nan_plus [simp]: "x + NaN = NaN" "NaN + x = NaN" by (cases x; simp)+
lemma nan_minus [simp]: "x - NaN = NaN" "NaN - x = NaN" by (cases x; simp add: minus_double_def)+
lemma nan_times [simp]: "x * NaN = NaN" "NaN * x = NaN" by (cases x; simp)+
lemma nan_divide [simp]: "x / NaN = NaN" "NaN / x = NaN" by (cases x; simp)+
lemma nan_less [simp]: "\<not> x < NaN" "\<not> NaN < x" by (cases x; simp)+
lemma nan_le [simp]: "\<not> x \<le> NaN" "\<not> NaN \<le> x" by (cases x; simp)+

lemma norm_cdf_nan [simp]: "norm_cdf NaN = NaN"
  by (simp add: norm_cdf_def)

lemma calc_d1_nan: "p_sigma p = NaN \<Longrightarrow> calc_d1 p = NaN"
  by (simp add: calc_d1_def)

lemma price_nan_sigma: "p_sigma p = NaN \<Longrightarrow> price (BlackScholes_price p) = NaN"
  by (simp add: BlackScholes_price_def calc_d1_nan Let_def)

subsection \<open>The solver stays in range and within its budgets\<close>

lemma std_clamp_range:
  assumes "lo \<le> hi"
  shows "std_clamp v (Fin lo) (Fin hi) = NaN \<or>
         (\<exists>x. std_clamp v (Fin lo) (Fin hi) = Fin x \<and> lo \<le> x \<and> x \<le> hi)"
  using assms by (cases v) (auto simp: std_clamp_def)

lemma vol_ok_clamp: "vol_ok (std_clamp v (Fin 0.001) (Fin 10))"
  using std_clamp_range [of "0.001" 10 v] by (auto simp: vol_ok_def)

lemma vol_ok_initial: "vol_ok (initial_guess market_price S T)"
  using std_clamp_range [of "0.01" 5] by (fastforce simp: vol_ok_def initial_guess_def Let_def)

lemma newton_loop_range:
  "vol_ok sigma \<Longrightarrow>
   snd (newton_loop market_price S K T r q ty tol max_iter i sigma) = Some s \<Longrightarrow>
   \<exists>x. s = Fin x \<and> 1 / 1000 \<le> x \<and> x \<le> 10"
proof (induction market_price S K T r q ty tol max_iter i sigma rule: newton_loop.induct)
  case (1 market_price S K T r q ty tol max_iter i sigma)
  let ?p = "\<lparr>p_S = S, p_K = K, p_T = T, p_r = r, p_sigma = sigma, p_q = q,
             p_type = ty, p_style = EUROPEAN\<rparr>"
  let ?diff = "price (BlackScholes_price ?p) - market_price"
  let ?vega = "BlackScholes_vega ?p * Fin 100"
  show ?case
  proof (cases "i < max_iter")
    case False
    with "1.prems" show ?thesis by (simp add: newton_loop.simps [of _ _ _ _ _ _ _ _ _ i])
  next
    case lt: True
    show ?thesis
    proof (cases "\<bar>?diff\<bar> < tol")
      case True
      with lt "1.prems" have s: "s = sigma"
        by (simp add: newton_loop.simps [of _ _ _ _ _ _ _ _ _ i] Let_def)
      have "sigma \<noteq> NaN"
      proof
        assume "sigma = NaN"
        then have "?diff = NaN" by (simp add: price_nan_sigma)
        with True show False by simp
      qed
      with "1.prems"(1) s show ?thesis by (auto simp: vol_ok_def)
    next
      case nconv: False
      show ?thesis
      proof (cases "\<bar>?vega\<bar> < Fin (1 / 10 ^ 12)")
        case True
        with lt nconv "1.prems" show ?thesis
          by (simp add: newton_loop.simps [of _ _ _ _ _ _ _ _ _ i] Let_def)
      next
        case False
        with lt nconv "1.prems"(2)
        have "snd (newton_loop market_price S K T r q ty tol max_iter (i + 1)
                 (std_clamp (sigma - ?diff / ?vega) (Fin 0.001) (Fin 10))) = Some s"
          by (simp add: newton_loop.simps [of _ _ _ _ _ _ _ _ _ i] Let_def)
        with "1.IH" [OF lt refl refl refl refl nconv False vol_ok_clamp] show ?thesis .
      qed
    qed
  qed
qed


lemma newton_loop_steps:
  "0 \<le> i \<Longrightarrow> i \<le> max 0 max_iter \<Longrightarrow>
   fst (newton_loop market_price S K T r q ty tol max_iter i sigma) \<le> nat max_iter"
proof (induction market_price S K T r q ty tol max_iter i sigma rule: newton_loop.induct)
  case (1 market_price S K T r q ty tol max_iter i sigma)
  show ?case
  proof (cases "i < max_iter")
    case False
    with "1.prems" show ?thesis by (simp add: newton_loop.simps [of _ _ _ _ _ _ _ _ _ i])
  next
    case True
    with "1.prems" "1.IH" show ?thesis
      by (subst newton_loop.simps) (auto simp: Let_def)
  qed
qed

lemma bisection_loop_steps:
  "0 \<le> i \<Longrightarrow> i \<le> 200 \<Longrightarrow>
   fst (bisection_loop market_price S K T r q ty tol i lo hi) \<le> 200"
proof (induction market_price S K T r q ty tol i lo hi rule: bisection_loop.induct)
  case (1 market_price S K T r q ty tol i lo hi)
  show ?case
  proof (cases "i < 200")
    case False
    with "1.prems" show ?thesis by (subst bisection_loop.simps) simp
  next
    case True
    with "1.prems" "1.IH" show ?thesis
      by (subst bisection_loop.simps) (auto simp: Let_def)
  qed
qed

lemma bisection_loop_range:
  "a \<le> b \<Longrightarrow>
   \<exists>v. snd (bisection_loop market_price S K T r q ty tol i (Fin a) (Fin b)) = Fin v \<and>
       a \<le> v \<and> v \<le> b"
proof (induction market_price S K T r q ty tol i "Fin a" "Fin b" arbitrary: a b
       rule: bisection_loop.induct)
  case (1 market_price S K T r q ty tol i)
  have mid: "(Fin a + Fin b) / Fin 2 = Fin ((a + b) / 2)" by simp
  from "1.prems" have ab: "a \<le> (a + b) / 2" "(a + b) / 2 \<le> b" by simp_all
  let ?p = "\<lparr>p_S = S, p_K = K, p_T = T, p_r = r, p_sigma = Fin ((a + b) / 2), p_q = q,
             p_type = ty, p_style = EUROPEAN\<rparr>"
  let ?m = "price (BlackScholes_price ?p)"
  show ?case
  proof (cases "i < 200")
    case False
    with ab show ?thesis
      by (subst bisection_loop.simps) (auto intro!: exI [of _ "(a + b) / 2"])
  next
    case lt: True
    show ?thesis
    proof (cases "\<bar>?m - market_price\<bar> < tol")
      case True
      with lt ab show ?thesis
        by (subst bisection_loop.simps) (auto simp: Let_def intro!: exI [of _ "(a + b) / 2"])
    next
      case nconv: False
      show ?thesis
      proof (cases "?m > market_price")
        case True
        from "1.hyps"(1) [OF lt mid [symmetric] refl refl nconv True ab(1)]
        obtain v where "snd (bisection_loop market_price S K T r q ty tol (i + 1) (Fin a)
            (Fin ((a + b) / 2))) = Fin v" "a \<le> v" "v \<le> (a + b) / 2"
          by (auto simp: mid)
        with lt nconv True ab show ?thesis
          by (subst bisection_loop.simps) (auto simp: Let_def)
      next
        case False
        from "1.hyps"(2) [OF lt mid [symmetric] refl refl nconv False ab(2)]
        obtain v where "snd (bisection_loop market_price S K T r q ty tol (i + 1) 
            (Fin ((a + b) / 2)) (Fin b)) = Fin v" "(a + b) / 2 \<le> v" "v \<le> b"
          by (auto simp: mid)
        with lt nconv False ab show ?thesis
          by (subst bisection_loop.simps) (auto simp: Let_def)
      qed
    qed
  qed
qed

text \<open>
  C1. For every market price, contract, tolerance and iteration budget,
  \<^verbatim>\<open>ImpliedVolSolver::solve\<close> enters the Newton loop body at most \<open>max_iter\<close> times and the
  bisection loop body at most 200 times, and it returns a number (not NaN, not an
  infinity, no failure) that lies in \<open>[0.001, 10]\<close>.
\<close>

theorem solve_terminates_in_range:
  "fst (newton_loop market_price S K T r q ty tol max_iter 0 (initial_guess market_price S T))
     \<le> nat max_iter \<and>
   fst (bisection_loop market_price S K T r q ty tol 0 (Fin 0.001) (Fin 5)) \<le> 200 \<and>
   (\<exists>v. solve market_price S K T r q ty tol max_iter = Fin v \<and> 0.001 \<le> v \<and> v \<le> 10)"
proof (intro conjI)
  show "fst (newton_loop market_price S K T r q ty tol max_iter 0
          (initial_guess market_price S T)) \<le> nat max_iter"
    by (rule newton_loop_steps) simp_all
  show "fst (bisection_loop market_price S K T r q ty tol 0 (Fin 0.001) (Fin 5)) \<le> 200"
    by (rule bisection_loop_steps) simp_all
  show "\<exists>v. solve market_price S K T r q ty tol max_iter = Fin v \<and> 0.001 \<le> v \<and> v \<le> 10"
  proof (cases "snd (newton_loop market_price S K T r q ty tol max_iter 0
                  (initial_guess market_price S T))")
    case None
    from bisection_loop_range [of "0.001" 5 market_price S K T r q ty tol 0]
    show ?thesis by (auto simp: solve_def None bisection_solve_def)
  next
    case (Some s)
    from newton_loop_range [OF vol_ok_initial Some] show ?thesis
      by (auto simp: solve_def Some)
  qed
qed

subsection \<open>The analytic pricer on valid contracts\<close>

lemma is_finite_iff: "is_finite x \<longleftrightarrow> (\<exists>a. x = Fin a)"
  by (cases x) (simp_all add: is_finite_def)

lemma positive_finite_iff: "positive_finite x \<longleftrightarrow> (\<exists>a. x = Fin a \<and> 0 < a)"
  by (cases x) (simp_all add: positive_finite_def)

lemma Fin_minus [simp]: "Fin a - Fin b = Fin (a - b)"
  by (simp add: minus_double_def)

lemma Fin_divide: "b \<noteq> 0 \<Longrightarrow> Fin a / Fin b = Fin (a / b)"
  by simp

lemma norm_cdf_core:
  assumes "0 \<le> x"
  shows "Fin 1 - (((((Fin 1.061405429 * (Fin 1 / (Fin 1 + Fin 0.3275911 * Fin x))
            + Fin (- 1.453152027)) * (Fin 1 / (Fin 1 + Fin 0.3275911 * Fin x)))
            + Fin 1.421413741) * (Fin 1 / (Fin 1 + Fin 0.3275911 * Fin x))
            + Fin (- 0.284496736)) * (Fin 1 / (Fin 1 + Fin 0.3275911 * Fin x))
            + Fin 0.254829592) * (Fin 1 / (Fin 1 + Fin 0.3275911 * Fin x))
            * dexp ((- Fin x) * Fin x)
         = Fin (erf_approx x)"
proof -
  have "0 \<le> 0.3275911 * x" using assms by simp
  then have nz: "1 + 0.3275911 * x \<noteq> 0" by linarith
  have t: "Fin 1 / (Fin 1 + Fin 0.3275911 * Fin x) = Fin (1 / (1 + 0.3275911 * x))"
    by (simp only: times_double.simps plus_double.simps Fin_divide [OF nz])
  show ?thesis
    unfolding t erf_approx_def Let_def
    by (simp only: times_double.simps plus_double.simps uminus_double.simps dexp.simps Fin_minus)
qed

lemma norm_cdf_Fin:
  "norm_cdf (Fin x) =
     Fin (if 8 < x then 1 else if x < - 8 then 0
          else 0.5 * (1 + (if 0 \<le> x then 1 else - 1) * erf_approx (\<bar>x\<bar> / sqrt 2)))"
proof -
  have sc: "\<bar>Fin x\<bar> / dsqrt (Fin 2) = Fin (\<bar>x\<bar> / sqrt 2)" by simp
  have nn: "0 \<le> \<bar>x\<bar> / sqrt 2" by simp
  show ?thesis
    unfolding norm_cdf_def Let_def sc norm_cdf_core [OF nn]
    by (simp only: less_double.simps less_eq_double.simps times_double.simps
          plus_double.simps if_distrib [of Fin] split: if_splits) auto
qed

lemma norm_cdf_finite: "\<exists>v. norm_cdf (Fin x) = Fin v"
  by (simp add: norm_cdf_Fin)

lemma norm_cdf_valof: "norm_cdf (Fin x) = Fin (valof (norm_cdf (Fin x)))"
  by (simp add: norm_cdf_Fin)






lemma calc_d1_Fin:
  assumes "p_S p = Fin s" "p_K p = Fin k" "p_T p = Fin t" "p_r p = Fin r" "p_sigma p = Fin v"
    "p_q p = Fin q" "0 < s" "0 < k" "0 < t" "0 < v"
  shows "calc_d1 p = Fin ((ln (s / k) + (r - q + 0.5 * v * v) * t) / (v * sqrt t))"
proof -
  have "0 < s / k" using assms by simp
  then have "\<not> s / k < 0" "s / k \<noteq> 0" by linarith+
  moreover have "Fin s / Fin k = Fin (s / k)" using \<open>0 < k\<close> by simp
  ultimately have lg: "dlog (Fin s / Fin k) = Fin (ln (s / k))"
    by (simp only: dlog.simps if_False)
  have sq: "dsqrt (Fin t) = Fin (sqrt t)" using \<open>0 < t\<close> by simp
  have nz: "v * sqrt t \<noteq> 0" using assms by simp
  show ?thesis
    unfolding calc_d1_def assms(1-6) lg sq
    by (simp only: times_double.simps plus_double.simps Fin_minus Fin_divide [OF nz])
qed

text \<open>The prices of a valid contract are the Black-Scholes-Merton expressions over the
  values of \<open>norm_cdf\<close>.\<close>

lemma BlackScholes_price_Fin:
  assumes "p_S p = Fin s" "p_K p = Fin k" "p_T p = Fin t" "p_r p = Fin r" "p_sigma p = Fin v"
    "p_q p = Fin q" "0 < s" "0 < k" "0 < t" "0 < v"
  defines "a \<equiv> (ln (s / k) + (r - q + 0.5 * v * v) * t) / (v * sqrt t)"
  defines "c \<equiv> \<lambda>x. valof (norm_cdf (Fin x))"
  shows "price (BlackScholes_price p) =
     Fin (if p_type p = CALL
          then s * exp ((- q) * t) * c a - k * exp ((- r) * t) * c (a - v * sqrt t)
          else k * exp ((- r) * t) * c (- (a - v * sqrt t)) - s * exp ((- q) * t) * c (- a))"
proof -
  have d1: "calc_d1 p = Fin a"
    unfolding a_def using assms(1-10) by (rule calc_d1_Fin)
  have sq: "dsqrt (Fin t) = Fin (sqrt t)" using \<open>0 < t\<close> by simp
  have cdf: "norm_cdf (Fin x) = Fin (c x)" for x
    unfolding c_def by (rule norm_cdf_valof)
  show ?thesis
    unfolding BlackScholes_price_def Let_def d1 assms(1-6) sq
    by (simp only: times_double.simps plus_double.simps uminus_double.simps Fin_minus
          dexp.simps cdf PricingResult.simps if_distrib [of Fin])
qed







subsection \<open>The analytic pricer validates nothing\<close>

lemma calc_d1_expired_at_money:
  assumes "p_S p = Fin s" "0 < s" "p_K p = p_S p" "p_T p = Fin 0"
    "is_finite (p_r p)" "is_finite (p_sigma p)" "is_finite (p_q p)"
  shows "calc_d1 p = NaN"
proof -
  from assms(5-7) obtain r v q where f: "p_r p = Fin r" "p_sigma p = Fin v" "p_q p = Fin q"
    unfolding is_finite_iff by blast
  show ?thesis
    unfolding calc_d1_def assms(3) assms(1) assms(4) f using \<open>0 < s\<close> by simp
qed

text \<open>
  C2, in the form that holds of the code. \<^verbatim>\<open>BlackScholes::price\<close> validates nothing: for every input, also one with a
  non-positive \<open>S\<close>, \<open>K\<close>, \<open>T\<close> or \<open>sigma\<close>, it computes and returns a
  \<^verbatim>\<open>PricingResult\<close> and never fails with \<open>InvalidParameter\<close>; at the money with \<open>T = 0\<close>
  (\<open>S = K > 0\<close>; \<open>r\<close>, \<open>q\<close>, \<open>sigma\<close> finite) the price it returns is NaN.
\<close>

theorem BlackScholes_price_never_rejects:
  "BlackScholes_price_outcome p = Inr (BlackScholes_price p) \<and>
   (positive_finite (p_S p) \<and> p_K p = p_S p \<and> p_T p = Fin 0 \<and>
    is_finite (p_r p) \<and> is_finite (p_sigma p) \<and> is_finite (p_q p) \<longrightarrow>
    price (BlackScholes_price p) = NaN)"
proof (intro conjI impI)
  show "BlackScholes_price_outcome p = Inr (BlackScholes_price p)"
    by (simp add: BlackScholes_price_outcome_def)
next
  assume a: "positive_finite (p_S p) \<and> p_K p = p_S p \<and> p_T p = Fin 0 \<and>
    is_finite (p_r p) \<and> is_finite (p_sigma p) \<and> is_finite (p_q p)"
  then obtain s where "p_S p = Fin s" "0 < s" unfolding positive_finite_iff by blast
  with a have "calc_d1 p = NaN" by (intro calc_d1_expired_at_money) simp_all
  then show "price (BlackScholes_price p) = NaN"
    by (simp add: BlackScholes_price_def Let_def)
qed

text \<open>That statement at the put \<open>S = K = 100, T = 0, r = 0.05, sigma = 0.2, q = 0\<close>.\<close>

theorem BlackScholes_price_never_rejects_witness:
  "BlackScholes_price_outcome
      \<lparr>p_S = Fin 100, p_K = Fin 100, p_T = Fin 0, p_r = Fin 0.05, p_sigma = Fin 0.2,
       p_q = Fin 0, p_type = PUT, p_style = EUROPEAN\<rparr> =
    Inr (BlackScholes_price
      \<lparr>p_S = Fin 100, p_K = Fin 100, p_T = Fin 0, p_r = Fin 0.05, p_sigma = Fin 0.2,
       p_q = Fin 0, p_type = PUT, p_style = EUROPEAN\<rparr>) \<and>
   price (BlackScholes_price
      \<lparr>p_S = Fin 100, p_K = Fin 100, p_T = Fin 0, p_r = Fin 0.05, p_sigma = Fin 0.2,
       p_q = Fin 0, p_type = PUT, p_style = EUROPEAN\<rparr>) = NaN"
  using BlackScholes_price_never_rejects
    [of "\<lparr>p_S = Fin 100, p_K = Fin 100, p_T = Fin 0, p_r = Fin 0.05, p_sigma = Fin 0.2,
       p_q = Fin 0, p_type = PUT, p_style = EUROPEAN\<rparr>"]
  by (simp add: positive_finite_def is_finite_def)

text \<open>
  C2 as stated fails: the call \<open>S = K = 100, T = 0, r = 0.05, sigma = 0.2, q = 0\<close> has a
  non-positive \<open>T\<close>, and \<^verbatim>\<open>BlackScholes::price\<close> returns a result whose price is NaN.
\<close>

theorem BlackScholes_price_counterexample:
  "\<not> Fin 0 < p_T \<lparr>p_S = Fin 100, p_K = Fin 100, p_T = Fin 0, p_r = Fin 0.05, p_sigma = Fin 0.2,
       p_q = Fin 0, p_type = CALL, p_style = EUROPEAN\<rparr> \<and>
   BlackScholes_price_outcome
      \<lparr>p_S = Fin 100, p_K = Fin 100, p_T = Fin 0, p_r = Fin 0.05, p_sigma = Fin 0.2,
       p_q = Fin 0, p_type = CALL, p_style = EUROPEAN\<rparr> =
    Inr \<lparr>price = NaN, std_error = Fin 0, method_label = ''Black-Scholes'', paths = 0\<rparr>"
  by (simp add: BlackScholes_price_outcome_def BlackScholes_price_def calc_d1_def Let_def)

subsection \<open>The binomial tree uses its probability unchecked\<close>

lemma dpow_one [simp]: "dpow x (Suc 0) = x"
  by (cases x) simp_all

lemma times_Fin_one [simp]: "x * Fin 1 = x"
  by (cases x) simp_all


lemma to_string_1: "to_string 1 = ''1''"
  by code_simp







text \<open>At the last \<^verbatim>\<open>int\<close> the size of \<^verbatim>\<open>prices\<close> wraps and no result is returned.\<close>

lemma BinomialTree_price_int_max: "BinomialTree_price p 2147483647 = Inl LengthError"
  by (simp add: BinomialTree_price_def int32_def)





subsection \<open>Calibration: one surface point per quote\<close>

lemma calibrate_fill_length:
  "length (calibrate_fill quotes spot rate div_yield i surf) = length surf"
  by (induction quotes spot rate div_yield i surf rule: calibrate_fill.induct)
     (subst calibrate_fill.simps, simp)

lemma calibrate_fill_nth:
  "length surf = length quotes \<Longrightarrow> j < length quotes \<Longrightarrow>
   calibrate_fill quotes spot rate div_yield i surf ! j =
     (if i \<le> j then calibrate_point (quotes ! j) spot rate div_yield else surf ! j)"
proof (induction quotes spot rate div_yield i surf rule: calibrate_fill.induct)
  case (1 quotes spot rate div_yield i surf)
  show ?case
  proof (cases "i < length quotes")
    case False
    with "1.prems" show ?thesis by (subst calibrate_fill.simps) simp
  next
    case True
    from "1.prems" have len: "length (surf[i := calibrate_point (quotes ! i) spot rate div_yield])
        = length quotes" by simp
    note ih = "1.IH" [OF True len "1.prems"(2)]
    have step: "calibrate_fill quotes spot rate div_yield i surf =
        calibrate_fill quotes spot rate div_yield (i + 1)
          (surf[i := calibrate_point (quotes ! i) spot rate div_yield])"
      using True by (subst calibrate_fill.simps) simp
    show ?thesis
    proof (cases "i = j")
      case True
      with ih "1.prems" show ?thesis unfolding step by simp
    next
      case False
      with ih "1.prems" show ?thesis unfolding step by auto
    qed
  qed
qed

lemma calibrate_surface:
  "surface (calibrate quotes spot rate div_yield) =
     calibrate_fill quotes spot rate div_yield 0 (replicate (length quotes) zero_point)"
  by (simp add: calibrate_def Let_def split: prod.splits)

text \<open>
  C7. For every quote list, the surface that \<^verbatim>\<open>VolSurface::calibrate\<close> returns has as many
  points as there are quotes, and for every index \<open>i\<close> the point \<open>surface[i]\<close> carries the
  strike and the expiry of \<open>quotes[i]\<close>.
\<close>

theorem calibrate_one_point_per_quote:
  "length (surface (calibrate quotes spot rate div_yield)) = length quotes \<and>
   (\<forall>i < length quotes.
      pt_strike (surface (calibrate quotes spot rate div_yield) ! i) = q_strike (quotes ! i) \<and>
      pt_expiry (surface (calibrate quotes spot rate div_yield) ! i) = q_expiry (quotes ! i))"
proof (intro conjI allI impI)
  show "length (surface (calibrate quotes spot rate div_yield)) = length quotes"
    by (simp add: calibrate_surface calibrate_fill_length)
next
  fix i assume "i < length quotes"
  then have "surface (calibrate quotes spot rate div_yield) ! i =
      calibrate_point (quotes ! i) spot rate div_yield"
    by (simp add: calibrate_surface calibrate_fill_nth)
  then show "pt_strike (surface (calibrate quotes spot rate div_yield) ! i) = q_strike (quotes ! i)"
    and "pt_expiry (surface (calibrate quotes spot rate div_yield) ! i) = q_expiry (quotes ! i)"
    by (simp_all add: calibrate_point_def Let_def)
qed

text \<open>Two quotes, read at index 1.\<close>

theorem calibrate_one_point_per_quote_witness:
  "(1::nat) < length
      [\<lparr>q_strike = Fin 95, q_expiry = Fin 0.5, q_market_price = Fin 8, q_type = PUT\<rparr>,
       \<lparr>q_strike = Fin 105, q_expiry = Fin 1, q_market_price = Fin 7, q_type = CALL\<rparr>] \<and>
   length (surface (calibrate
      [\<lparr>q_strike = Fin 95, q_expiry = Fin 0.5, q_market_price = Fin 8, q_type = PUT\<rparr>,
       \<lparr>q_strike = Fin 105, q_expiry = Fin 1, q_market_price = Fin 7, q_type = CALL\<rparr>]
      (Fin 100) (Fin 0.05) (Fin 0))) = 2 \<and>
   pt_strike (surface (calibrate
      [\<lparr>q_strike = Fin 95, q_expiry = Fin 0.5, q_market_price = Fin 8, q_type = PUT\<rparr>,
       \<lparr>q_strike = Fin 105, q_expiry = Fin 1, q_market_price = Fin 7, q_type = CALL\<rparr>]
      (Fin 100) (Fin 0.05) (Fin 0)) ! 1) = Fin 105 \<and>
   pt_expiry (surface (calibrate
      [\<lparr>q_strike = Fin 95, q_expiry = Fin 0.5, q_market_price = Fin 8, q_type = PUT\<rparr>,
       \<lparr>q_strike = Fin 105, q_expiry = Fin 1, q_market_price = Fin 7, q_type = CALL\<rparr>]
      (Fin 100) (Fin 0.05) (Fin 0)) ! 1) = Fin 1"
  using calibrate_one_point_per_quote
    [of "[\<lparr>q_strike = Fin 95, q_expiry = Fin 0.5, q_market_price = Fin 8, q_type = PUT\<rparr>,
       \<lparr>q_strike = Fin 105, q_expiry = Fin 1, q_market_price = Fin 7, q_type = CALL\<rparr>]"
      "Fin 100" "Fin 0.05" "Fin 0"]
  by (simp add: nth_Cons')

text \<open>
  C10. On the empty quote list \<^verbatim>\<open>VolSurface::calibrate\<close> returns normally: the surface is
  empty, \<open>max_error\<close> is 0, and \<open>total_rmse\<close> is \<open>sqrt(0 / 0)\<close>, that is NaN.
\<close>

theorem calibrate_empty:
  "calibrate [] spot rate div_yield =
     \<lparr>surface = [], total_rmse = NaN, max_error = Fin 0, iterations = 0\<rparr>"
  by (simp add: calibrate_def calibrate_fill.simps)

subsection \<open>Antithetic samples come in pairs\<close>

lemma antithetic_fill_length:
  "length (antithetic_fill draw half i samples) = length samples"
  by (induction draw half i samples rule: antithetic_fill.induct)
     (subst antithetic_fill.simps, simp add: Let_def)

lemma antithetic_fill_nth:
  "2 * half \<le> length samples \<Longrightarrow> k < length samples \<Longrightarrow>
   antithetic_fill draw half i samples ! k =
     (if 2 * i \<le> k \<and> k < 2 * half
      then (if even k then draw (k div 2) else - draw (k div 2))
      else samples ! k)"
proof (induction draw half i samples rule: antithetic_fill.induct)
  case (1 draw half i samples)
  show ?case
  proof (cases "i < half")
    case False
    then have "\<not> (2 * i \<le> k \<and> k < 2 * half)" by linarith
    then have "(if 2 * i \<le> k \<and> k < 2 * half
        then (if even k then draw (k div 2) else - draw (k div 2))
        else samples ! k) = samples ! k" by (rule if_not_P)
    moreover have "antithetic_fill draw half i samples = samples"
      using False by (subst antithetic_fill.simps) simp
    ultimately show ?thesis by simp
  next
    case True
    let ?s = "samples[2 * i := draw i, 2 * i + 1 := - draw i]"
    have step: "antithetic_fill draw half i samples = antithetic_fill draw half (i + 1) ?s"
      using True by (subst antithetic_fill.simps) (simp add: Let_def)
    have len: "2 * half \<le> length ?s" "k < length ?s" using "1.prems" by simp_all
    note ih = "1.IH" [OF True refl len]
    consider "k < 2 * i" | "k = 2 * i" | "k = 2 * i + 1" | "2 * (i + 1) \<le> k" by fastforce
    then show ?thesis
    proof cases
      case 1 with ih "1.prems" show ?thesis unfolding step by simp
    next
      case 2 with ih "1.prems" True show ?thesis unfolding step by simp
    next
      case 3 with ih "1.prems" True show ?thesis unfolding step by simp
    next
      case 4 with ih "1.prems" show ?thesis unfolding step by simp
    qed
  qed
qed

text \<open>
  C8. For every even \<open>n \<ge> 2\<close> and every seed (every sequence of draws),
  \<^verbatim>\<open>generate_antithetic(n, seed)\<close> returns \<open>n\<close> samples in which, for every \<open>i < n / 2\<close>, the
  sample at index \<open>2 i + 1\<close> is the negation of the sample at index \<open>2 i\<close>.
\<close>

theorem generate_antithetic_pairs:
  assumes "2 \<le> n" and "even n"
  shows "\<exists>samples. generate_antithetic n draw = Inr samples \<and> length samples = nat n \<and>
           (\<forall>i < nat (n div 2). samples ! (2 * i + 1) = - samples ! (2 * i))"
proof -
  let ?h = "nat (n div 2)"
  let ?s = "antithetic_fill draw ?h 0 (replicate (nat n) (Fin 0))"
  from assms(2) obtain m where m: "n = 2 * m" by (rule evenE)
  with assms(1) have n: "nat n = 2 * ?h" by (simp add: nat_mult_distrib)
  from assms have ga: "generate_antithetic n draw = Inr ?s"
    by (simp add: generate_antithetic_def Let_def)
  have len: "length ?s = nat n" by (simp add: antithetic_fill_length)
  have "?s ! (2 * i + 1) = - ?s ! (2 * i)" if "i < ?h" for i
  proof -
    from that n have b: "2 * i + 1 < nat n" "2 * i < nat n" by linarith+
    have "?s ! (2 * i + 1) = - draw i"
      using b that by (subst antithetic_fill_nth) (simp_all add: n [symmetric])
    moreover have "?s ! (2 * i) = draw i"
      using b that by (subst antithetic_fill_nth) (simp_all add: n [symmetric])
    ultimately show ?thesis by simp
  qed
  with ga len show ?thesis by blast
qed


text \<open>Four samples from the draws \<open>0.5, 1.5, \<dots>\<close>.\<close>

theorem generate_antithetic_pairs_witness:
  "(2::int) \<le> 4 \<and> even (4::int) \<and>
   (\<exists>samples. generate_antithetic 4 (\<lambda>k. Fin (real k + 0.5)) = Inr samples \<and>
      length samples = 4 \<and>
      (\<forall>i < 2. samples ! (2 * i + 1) = - samples ! (2 * i)))"
  using generate_antithetic_pairs [of 4 "\<lambda>k. Fin (real k + 0.5)"]
  by simp

subsection \<open>Monte Carlo estimates\<close>

lemma times_divide_Fin:
  assumes "0 < c"
  shows "a * b / Fin c = a * (b / Fin c)"
  using assms by (cases a; cases b) (auto simp: zero_less_divide_iff)

lemma dsqrt_divide_Fin:
  assumes "0 < n"
  shows "dsqrt (v / Fin n) = dsqrt v / dsqrt (Fin n)"
  using assms by (cases v) (auto simp: real_sqrt_divide divide_less_0_iff)

lemma std_max_not_negative: "\<not> std_max a (Fin 0) < Fin 0"
  by (cases a) (auto simp: std_max_def)

lemma std_max_idem: "\<not> a < Fin 0 \<Longrightarrow> std_max a (Fin 0) = a"
  by (simp add: std_max_def)

lemma plus_not_negative: "\<not> a < Fin 0 \<Longrightarrow> \<not> b < Fin 0 \<Longrightarrow> \<not> a + b < Fin 0"
  by (cases a; cases b) auto

lemma times_not_negative: "\<not> a < Fin 0 \<Longrightarrow> \<not> b < Fin 0 \<Longrightarrow> \<not> a * b < Fin 0"
  by (cases a; cases b) (auto simp: mult_less_0_iff)

lemma divide_not_negative: "\<not> a < Fin 0 \<Longrightarrow> 0 < c \<Longrightarrow> \<not> a / Fin c < Fin 0"
  by (cases a) (auto simp: divide_less_0_iff)

lemma dexp_not_negative: "\<not> dexp x < Fin 0"
  by (cases x) (auto simp: not_less)

lemma foldl_plus_not_negative:
  "\<not> acc < Fin 0 \<Longrightarrow> \<forall>x \<in> set xs. \<not> x < Fin 0 \<Longrightarrow> \<not> foldl (+) acc xs < Fin 0"
  by (induction xs arbitrary: acc) (auto simp: plus_not_negative)

lemma accumulate_payoffs_not_negative: "\<not> accumulate (mc_payoffs p n z) < Fin 0"
  unfolding accumulate_def
  by (rule foldl_plus_not_negative)
     (auto simp: mc_payoffs_def intrinsic_value_def std_max_not_negative)


lemma mc_estimate_fst:
  assumes "0 < n"
  shows "fst (mc_estimate p n vr z) =
           discount p * sample_mean (estimator_payoffs p n vr z)"
proof -
  have len: "length (estimator_payoffs p n vr z) = n"
    by (simp add: estimator_payoffs_def cv_adjusted_def mc_payoffs_def Let_def)
  from assms have n: "0 < real n" by simp
  show ?thesis
    unfolding sample_mean_def len
    by (simp add: mc_estimate_def Let_def estimator_payoffs_def discount_def
          times_divide_Fin [OF n])
qed

lemma mc_estimate_snd:
  assumes "0 < n"
  shows "snd (mc_estimate p n vr z) =
           discount p * sample_std (estimator_payoffs p n vr z) / dsqrt (Fin (real n))"
proof -
  have len: "length (estimator_payoffs p n vr z) = n"
    by (simp add: estimator_payoffs_def cv_adjusted_def mc_payoffs_def Let_def)
  from assms have n: "0 < real n" by simp
  then have sn: "0 < sqrt (real n)" by simp
  have sq: "dsqrt (Fin (real n)) = Fin (sqrt (real n))" by simp
  have "snd (mc_estimate p n vr z) =
      discount p * dsqrt (sum_sq_dev (estimator_payoffs p n vr z)
           (sample_mean (estimator_payoffs p n vr z)) / Fin (real_of_int (int n - 1))
         / Fin (real n))"
    unfolding sample_mean_def len
    by (simp add: mc_estimate_def Let_def estimator_payoffs_def discount_def)
  also have "\<dots> = discount p * (sample_std (estimator_payoffs p n vr z) / dsqrt (Fin (real n)))"
    unfolding sample_std_def len by (simp only: dsqrt_divide_Fin [OF n])
  also have "\<dots> = discount p * sample_std (estimator_payoffs p n vr z) / dsqrt (Fin (real n))"
    unfolding sq by (simp only: times_divide_Fin [OF sn])
  finally show ?thesis .
qed

lemma plain_estimate_not_negative:
  assumes "0 < n" "vr \<noteq> CONTROL_VARIATE"
  shows "\<not> discount p * sample_mean (estimator_payoffs p n vr z) < Fin 0"
proof -
  from assms have n: "0 < real n" by simp
  have len: "length (mc_payoffs p n z) = n" by (simp add: mc_payoffs_def)
  have "\<not> accumulate (mc_payoffs p n z) / Fin (real n) < Fin 0"
    using accumulate_payoffs_not_negative n by (rule divide_not_negative)
  with dexp_not_negative show ?thesis
    unfolding discount_def estimator_payoffs_def sample_mean_def using assms(2)
    by (simp add: len times_not_negative)
qed

text \<open>
  C5, in the form that holds of the code. For every contract, path count \<open>N \<ge> 2\<close>, sequence of draws and
  variance-reduction mode, \<^verbatim>\<open>MonteCarloEngine::price\<close> returns as price the maximum of 0 and
  \<open>e^{-rT}\<close> times the sample mean of the per-path payoffs (for Control Variate, of the
  beta-adjusted payoffs); in the modes other than Control Variate that is \<open>e^{-rT}\<close>
  times the sample mean itself. The standard error is \<open>e^{-rT}\<close> times the sample standard
  deviation (divisor \<open>N - 1\<close>) of those payoffs divided by \<open>sqrt N\<close>.
\<close>

theorem mc_price_discounted_estimates:
  assumes "2 \<le> num_paths" and "mc_samples vr num_paths draw = Inr z"
  shows "\<exists>res. MonteCarloEngine_price p num_paths vr draw = Inr res \<and>
     price res =
       std_max (discount p * sample_mean (estimator_payoffs p (nat num_paths) vr z)) (Fin 0) \<and>
     (vr \<noteq> CONTROL_VARIATE \<longrightarrow>
        price res = discount p * sample_mean (estimator_payoffs p (nat num_paths) vr z)) \<and>
     std_error res =
       discount p * sample_std (estimator_payoffs p (nat num_paths) vr z) /
         dsqrt (Fin (real_of_int num_paths))"
proof -
  from assms(1) have n: "0 < nat num_paths" and rn: "real (nat num_paths) = real_of_int num_paths"
    by simp_all
  let ?e = "mc_estimate p (nat num_paths) vr z"
  let ?res = "\<lparr>price = std_max (fst ?e) (Fin 0), std_error = snd ?e,
                 method_label = mc_method vr, paths = num_paths\<rparr>"
  have r: "MonteCarloEngine_price p num_paths vr draw = Inr ?res"
    using assms by (simp add: MonteCarloEngine_price_def split: prod.splits)
  have p1: "price ?res =
      std_max (discount p * sample_mean (estimator_payoffs p (nat num_paths) vr z)) (Fin 0)"
    by (simp add: mc_estimate_fst [OF n])
  have p2: "price ?res = discount p * sample_mean (estimator_payoffs p (nat num_paths) vr z)"
    if "vr \<noteq> CONTROL_VARIATE"
    unfolding p1 using plain_estimate_not_negative [OF n that] by (rule std_max_idem)
  have p3: "std_error ?res =
      discount p * sample_std (estimator_payoffs p (nat num_paths) vr z) /
         dsqrt (Fin (real_of_int num_paths))"
    using mc_estimate_snd [OF n, of p vr z] by (simp add: rn)
  from r p1 p2 p3 show ?thesis by blast
qed


text \<open>A control-variate run on two paths: the call \<open>S = 1, K = 2, T = 1, r = q = 0,
  sigma = 1\<close> with the draws \<open>1.5\<close> and \<open>2.5\<close>. Both paths end in the money, \<open>beta = 1\<close>, and
  both adjusted payoffs are \<open>-1\<close>.\<close>

lemma upt_two: "[0..<2] = [0, Suc 0]"
  by (simp add: upt_rec numeral_2_eq_2)

lemma cv_beta_parallel:
  assumes "a \<noteq> b"
  shows "cv_beta [Fin a, Fin b] [Fin (a - k), Fin (b - k)] 2 = Fin 1"
proof -
  have ma: "accumulate [Fin a, Fin b] / Fin (real 2) = Fin ((a + b) / 2)"
    by (simp add: accumulate_def)
  have mp: "accumulate [Fin (a - k), Fin (b - k)] / Fin (real 2) = Fin ((a - k + (b - k)) / 2)"
    by (simp add: accumulate_def)
  define v where "v = (a - (a + b) / 2) * (a - (a + b) / 2) + (b - (a + b) / 2) * (b - (a + b) / 2)"
  have dp: "a - k - (a - k + (b - k)) / 2 = a - (a + b) / 2"
    "b - k - (a - k + (b - k)) / 2 = b - (a + b) / 2"
    by (simp_all add: field_simps)
  define h where "h = a - (a + b) / 2"
  have "h \<noteq> 0"
  proof
    assume "h = 0"
    then have "a = b" unfolding h_def by argo
    with assms show False by simp
  qed
  then have "0 < h\<^sup>2" by simp
  then have "0 < (a - (a + b) / 2) * (a - (a + b) / 2)"
    unfolding h_def power2_eq_square .
  moreover have "0 \<le> (b - (a + b) / 2) * (b - (a + b) / 2)" by simp
  ultimately have vpos: "0 < v" unfolding v_def by linarith
  have fold: "foldl (\<lambda>(cov, var_control) i.
                      (cov + ([Fin a, Fin b] ! i - Fin ((a + b) / 2)) *
                             ([Fin (a - k), Fin (b - k)] ! i - Fin ((a - k + (b - k)) / 2)),
                       var_control + ([Fin a, Fin b] ! i - Fin ((a + b) / 2)) *
                                     ([Fin a, Fin b] ! i - Fin ((a + b) / 2))))
               (Fin 0, Fin 0) [0..<2] = (Fin v, Fin v)"
    unfolding upt_two v_def by (simp, simp add: field_simps)
  show ?thesis
    unfolding cv_beta_def Let_def ma mp fold using vpos by simp
qed

lemma cv_example_terminals:
  "mc_terminal \<lparr>p_S = Fin 1, p_K = Fin 2, p_T = Fin 1, p_r = Fin 0, p_sigma = Fin 1,
       p_q = Fin 0, p_type = CALL, p_style = EUROPEAN\<rparr> (Fin (3 / 2)) = Fin (exp 1)"
  "mc_terminal \<lparr>p_S = Fin 1, p_K = Fin 2, p_T = Fin 1, p_r = Fin 0, p_sigma = Fin 1,
       p_q = Fin 0, p_type = CALL, p_style = EUROPEAN\<rparr> (Fin (5 / 2)) = Fin (exp 2)"
proof -
  have "- (1 / 2) + 3 / 2 = (1::real)" "- (1 / 2) + 5 / 2 = (2::real)" by simp_all
  then show "mc_terminal \<lparr>p_S = Fin 1, p_K = Fin 2, p_T = Fin 1, p_r = Fin 0, p_sigma = Fin 1,
       p_q = Fin 0, p_type = CALL, p_style = EUROPEAN\<rparr> (Fin (3 / 2)) = Fin (exp 1)"
    "mc_terminal \<lparr>p_S = Fin 1, p_K = Fin 2, p_T = Fin 1, p_r = Fin 0, p_sigma = Fin 1,
       p_q = Fin 0, p_type = CALL, p_style = EUROPEAN\<rparr> (Fin (5 / 2)) = Fin (exp 2)"
    by (simp_all add: mc_terminal_def Let_def)
qed

lemma exp_bounds: "2 \<le> exp (1::real)" "2 \<le> exp (2::real)" "exp (1::real) \<noteq> exp 2"
  using exp_ge_add_one_self [of "1::real"] exp_ge_add_one_self [of "2::real"] by simp_all

lemma cv_example_adjusted:
  "cv_adjusted \<lparr>p_S = Fin 1, p_K = Fin 2, p_T = Fin 1, p_r = Fin 0, p_sigma = Fin 1,
       p_q = Fin 0, p_type = CALL, p_style = EUROPEAN\<rparr> 2 [Fin (3 / 2), Fin (5 / 2)] = [Fin (- 1), Fin (- 1)]"
proof -
  let ?p = "\<lparr>p_S = Fin 1, p_K = Fin 2, p_T = Fin 1, p_r = Fin 0, p_sigma = Fin 1,
       p_q = Fin 0, p_type = CALL, p_style = EUROPEAN\<rparr>"
  have t: "mc_terminals ?p 2 [Fin (3 / 2), Fin (5 / 2)] = [Fin (exp 1), Fin (exp 2)]"
    unfolding mc_terminals_def upt_two by (simp add: cv_example_terminals)
  have y: "mc_payoffs ?p 2 [Fin (3 / 2), Fin (5 / 2)] = [Fin (exp 1 - 2), Fin (exp 2 - 2)]"
    unfolding mc_payoffs_def upt_two using exp_bounds(1,2)
    by (simp add: cv_example_terminals intrinsic_value_def std_max_def)
  have b: "cv_beta [Fin (exp 1), Fin (exp 2)] [Fin (exp 1 - 2), Fin (exp 2 - 2)] 2 = Fin 1"
    using exp_bounds(3) by (rule cv_beta_parallel)
  show ?thesis
    unfolding cv_adjusted_def Let_def t y b upt_two by simp
qed

lemma cv_example_samples:
  "mc_samples CONTROL_VARIATE 2 (\<lambda>k. Fin (real k + 3 / 2)) = Inr [Fin (3 / 2), Fin (5 / 2)]"
  by (simp add: mc_samples_def generate_normals_def upt_two)

lemma cv_example_estimate:
  "mc_estimate \<lparr>p_S = Fin 1, p_K = Fin 2, p_T = Fin 1, p_r = Fin 0, p_sigma = Fin 1,
       p_q = Fin 0, p_type = CALL, p_style = EUROPEAN\<rparr> 2 CONTROL_VARIATE [Fin (3 / 2), Fin (5 / 2)] = (Fin (- 1), Fin 0)"
  by (simp add: mc_estimate_def Let_def cv_example_adjusted accumulate_def sum_sq_dev_def)

lemma cv_example_price:
  "MonteCarloEngine_price \<lparr>p_S = Fin 1, p_K = Fin 2, p_T = Fin 1, p_r = Fin 0, p_sigma = Fin 1,
       p_q = Fin 0, p_type = CALL, p_style = EUROPEAN\<rparr> 2 CONTROL_VARIATE (\<lambda>k. Fin (real k + 3 / 2)) =
     Inr \<lparr>price = Fin 0, std_error = Fin 0, method_label = ''Monte Carlo (Control Variate)'',
          paths = 2\<rparr>"
  by (simp add: MonteCarloEngine_price_def cv_example_samples cv_example_estimate
        std_max_def mc_method_def)

text \<open>
  C5 as stated fails on that run: \<open>e^{-rT}\<close> times the sample mean of the adjusted payoffs
  is \<open>-1\<close>, and the price returned is 0.
\<close>

theorem mc_price_counterexample:
  "mc_samples CONTROL_VARIATE 2 (\<lambda>k. Fin (real k + 3 / 2)) = Inr [Fin (3 / 2), Fin (5 / 2)] \<and>
   MonteCarloEngine_price \<lparr>p_S = Fin 1, p_K = Fin 2, p_T = Fin 1, p_r = Fin 0, p_sigma = Fin 1,
       p_q = Fin 0, p_type = CALL, p_style = EUROPEAN\<rparr> 2 CONTROL_VARIATE (\<lambda>k. Fin (real k + 3 / 2)) =
     Inr \<lparr>price = Fin 0, std_error = Fin 0, method_label = ''Monte Carlo (Control Variate)'',
          paths = 2\<rparr> \<and>
   discount \<lparr>p_S = Fin 1, p_K = Fin 2, p_T = Fin 1, p_r = Fin 0, p_sigma = Fin 1,
       p_q = Fin 0, p_type = CALL, p_style = EUROPEAN\<rparr> *
     sample_mean (estimator_payoffs \<lparr>p_S = Fin 1, p_K = Fin 2, p_T = Fin 1, p_r = Fin 0, p_sigma = Fin 1,
       p_q = Fin 0, p_type = CALL, p_style = EUROPEAN\<rparr> 2 CONTROL_VARIATE [Fin (3 / 2), Fin (5 / 2)]) = Fin (- 1)"
  by (simp add: cv_example_samples cv_example_price estimator_payoffs_def cv_example_adjusted
        discount_def sample_mean_def accumulate_def)


lemma plain_example_samples:
  "mc_samples NONE 2 (\<lambda>k. Fin (1 / 2)) = Inr [Fin (1 / 2), Fin (1 / 2)]"
  by (simp add: mc_samples_def generate_normals_def upt_two)

text \<open>That statement on two paths without variance reduction.\<close>

theorem mc_price_discounted_estimates_witness:
  "(2::int) \<le> 2 \<and>
   mc_samples NONE 2 (\<lambda>k. Fin (1 / 2)) = Inr [Fin (1 / 2), Fin (1 / 2)] \<and>
   NONE \<noteq> CONTROL_VARIATE \<and>
   (\<exists>res. MonteCarloEngine_price \<lparr>p_S = Fin 100, p_K = Fin 90, p_T = Fin 1, p_r = Fin 0, p_sigma = Fin 1,
       p_q = Fin 0, p_type = CALL, p_style = EUROPEAN\<rparr> 2 NONE (\<lambda>k. Fin (1 / 2)) = Inr res \<and>
      price res =
        discount \<lparr>p_S = Fin 100, p_K = Fin 90, p_T = Fin 1, p_r = Fin 0, p_sigma = Fin 1,
       p_q = Fin 0, p_type = CALL, p_style = EUROPEAN\<rparr> * sample_mean (estimator_payoffs \<lparr>p_S = Fin 100, p_K = Fin 90, p_T = Fin 1, p_r = Fin 0, p_sigma = Fin 1,
       p_q = Fin 0, p_type = CALL, p_style = EUROPEAN\<rparr> (nat 2) NONE [Fin (1 / 2), Fin (1 / 2)]) \<and>
      std_error res =
        discount \<lparr>p_S = Fin 100, p_K = Fin 90, p_T = Fin 1, p_r = Fin 0, p_sigma = Fin 1,
       p_q = Fin 0, p_type = CALL, p_style = EUROPEAN\<rparr> * sample_std (estimator_payoffs \<lparr>p_S = Fin 100, p_K = Fin 90, p_T = Fin 1, p_r = Fin 0, p_sigma = Fin 1,
       p_q = Fin 0, p_type = CALL, p_style = EUROPEAN\<rparr> (nat 2) NONE [Fin (1 / 2), Fin (1 / 2)]) /
          dsqrt (Fin (real_of_int 2)))"
proof -
  have le: "(2::int) \<le> 2" by simp
  have ne: "NONE \<noteq> CONTROL_VARIATE" by simp
  from mc_price_discounted_estimates [OF le plain_example_samples, of "\<lparr>p_S = Fin 100, p_K = Fin 90, p_T = Fin 1, p_r = Fin 0, p_sigma = Fin 1,
       p_q = Fin 0, p_type = CALL, p_style = EUROPEAN\<rparr>"] ne
  show ?thesis using le plain_example_samples by blast
qed

lemma multistep_example:
  "MonteCarloEngine_price_multistep \<lparr>p_S = Fin 100, p_K = Fin 90, p_T = Fin 1, p_r = Fin 0, p_sigma = Fin 1,
       p_q = Fin 0, p_type = CALL, p_style = EUROPEAN\<rparr> 2 1 (\<lambda>i t. Fin (1 / 2)) =
     Inr \<lparr>price = Fin 10, std_error = Fin 0, method_label = ''MC MultiStep (1 steps)'',
          paths = 2\<rparr>"
proof -
  have e: "- (1 / 2) + 1 / 2 = (0::real)" by simp
  have w: "walk_path \<lparr>p_S = Fin 100, p_K = Fin 90, p_T = Fin 1, p_r = Fin 0, p_sigma = Fin 1,
       p_q = Fin 0, p_type = CALL, p_style = EUROPEAN\<rparr> (Fin (- (1 / 2))) (Fin 1) 1 (\<lambda>t. Fin (1 / 2)) = Fin 100"
    by (simp add: walk_path_def)
  have n: "nat 2 = 2" by simp
  show ?thesis
    unfolding MonteCarloEngine_price_multistep_def
    by (simp add: Let_def upt_two w to_string_1 intrinsic_value_def std_max_def
          accumulate_def sum_sq_dev_def)
qed

text \<open>
  C9. The price that \<^verbatim>\<open>MonteCarloEngine::price\<close> returns is never negative, and a negative
  discounted-mean estimate \<^verbatim>\<open>price_est\<close> is returned as 0; the price that
  \<^verbatim>\<open>price_multistep\<close> returns is never negative either.
\<close>

theorem mc_price_not_negative:
  "(MonteCarloEngine_price p num_paths vr draw = Inr res \<longrightarrow>
      \<not> price res < Fin 0 \<and>
      (\<forall>z. mc_samples vr num_paths draw = Inr z \<longrightarrow>
           fst (mc_estimate p (nat num_paths) vr z) < Fin 0 \<longrightarrow> price res = Fin 0)) \<and>
   (MonteCarloEngine_price_multistep p' num_paths' num_steps draws = Inr res' \<longrightarrow>
      \<not> price res' < Fin 0)"
proof (intro conjI impI allI)
  assume a: "MonteCarloEngine_price p num_paths vr draw = Inr res"
  then show "\<not> price res < Fin 0"
    by (auto simp: MonteCarloEngine_price_def std_max_not_negative
          split: if_splits sum.splits prod.splits)
  fix z
  assume "mc_samples vr num_paths draw = Inr z"
    and "fst (mc_estimate p (nat num_paths) vr z) < Fin 0"
  with a show "price res = Fin 0"
    by (auto simp: MonteCarloEngine_price_def std_max_def split: if_splits prod.splits)
next
  assume "MonteCarloEngine_price_multistep p' num_paths' num_steps draws = Inr res'"
  then show "\<not> price res' < Fin 0"
    by (auto simp: MonteCarloEngine_price_multistep_def Let_def std_max_not_negative
          split: if_splits)
qed

text \<open>The control-variate run above, whose estimate \<open>-1\<close> is returned as 0, and a
  multi-step run on two paths of one step.\<close>

theorem mc_price_not_negative_witness:
  "MonteCarloEngine_price \<lparr>p_S = Fin 1, p_K = Fin 2, p_T = Fin 1, p_r = Fin 0, p_sigma = Fin 1,
       p_q = Fin 0, p_type = CALL, p_style = EUROPEAN\<rparr> 2 CONTROL_VARIATE (\<lambda>k. Fin (real k + 3 / 2)) =
     Inr \<lparr>price = Fin 0, std_error = Fin 0, method_label = ''Monte Carlo (Control Variate)'',
          paths = 2\<rparr> \<and>
   mc_samples CONTROL_VARIATE 2 (\<lambda>k. Fin (real k + 3 / 2)) = Inr [Fin (3 / 2), Fin (5 / 2)] \<and>
   fst (mc_estimate \<lparr>p_S = Fin 1, p_K = Fin 2, p_T = Fin 1, p_r = Fin 0, p_sigma = Fin 1,
       p_q = Fin 0, p_type = CALL, p_style = EUROPEAN\<rparr> (nat 2) CONTROL_VARIATE [Fin (3 / 2), Fin (5 / 2)]) < Fin 0 \<and>
   \<not> Fin 0 < Fin 0 \<and>
   MonteCarloEngine_price_multistep \<lparr>p_S = Fin 100, p_K = Fin 90, p_T = Fin 1, p_r = Fin 0, p_sigma = Fin 1,
       p_q = Fin 0, p_type = CALL, p_style = EUROPEAN\<rparr> 2 1 (\<lambda>i t. Fin (1 / 2)) =
     Inr \<lparr>price = Fin 10, std_error = Fin 0, method_label = ''MC MultiStep (1 steps)'',
          paths = 2\<rparr> \<and>
   \<not> Fin 10 < Fin 0"
  using mc_price_not_negative
    [of "\<lparr>p_S = Fin 1, p_K = Fin 2, p_T = Fin 1, p_r = Fin 0, p_sigma = Fin 1,
       p_q = Fin 0, p_type = CALL, p_style = EUROPEAN\<rparr>" 2 CONTROL_VARIATE "\<lambda>k. Fin (real k + 3 / 2)"
        "\<lparr>price = Fin 0, std_error = Fin 0, method_label = ''Monte Carlo (Control Variate)'',
          paths = 2\<rparr>"
        "\<lparr>p_S = Fin 100, p_K = Fin 90, p_T = Fin 1, p_r = Fin 0, p_sigma = Fin 1,
       p_q = Fin 0, p_type = CALL, p_style = EUROPEAN\<rparr>" 2 1 "\<lambda>i t. Fin (1 / 2)"
        "\<lparr>price = Fin 10, std_error = Fin 0, method_label = ''MC MultiStep (1 steps)'',
          paths = 2\<rparr>"]
    cv_example_price cv_example_samples cv_example_estimate multistep_example
  by simp

subsection \<open>The bisection fallback\<close>

lemma midpoint_Fin [simp]: "midpoint (Fin a, Fin b) = Fin ((a + b) / 2)"
  by (simp add: midpoint_def)

lemma halve_cases:
  "halve market_price S K T r q ty (Fin a, Fin b) = (Fin a, Fin ((a + b) / 2)) \<or>
   halve market_price S K T r q ty (Fin a, Fin b) = (Fin ((a + b) / 2), Fin b)"
  by (simp add: halve_def)

lemma halve_funpow_inside:
  "a < b \<Longrightarrow>
   \<exists>a' b'. (halve market_price S K T r q ty ^^ n) (Fin a, Fin b) = (Fin a', Fin b') \<and>
           a \<le> a' \<and> a' < b' \<and> b' \<le> b"
proof (induction n)
  case 0
  then show ?case by simp
next
  case (Suc n)
  from Suc.IH [OF Suc.prems] obtain a' b' where
    b: "(halve market_price S K T r q ty ^^ n) (Fin a, Fin b) = (Fin a', Fin b')"
    and i: "a \<le> a'" "a' < b'" "b' \<le> b" by blast
  from i have m: "a' < (a' + b') / 2" "(a' + b') / 2 < b'" by simp_all
  from halve_cases [of market_price S K T r q ty a' b'] show ?case
  proof
    assume "halve market_price S K T r q ty (Fin a', Fin b') = (Fin a', Fin ((a' + b') / 2))"
    with b i m show ?thesis by (intro exI [of _ a'] exI [of _ "(a' + b') / 2"]) simp
  next
    assume "halve market_price S K T r q ty (Fin a', Fin b') = (Fin ((a' + b') / 2), Fin b')"
    with b i m show ?thesis by (intro exI [of _ "(a' + b') / 2"] exI [of _ b']) simp
  qed
qed

lemma bisection_fixed_off_first_midpoint:
  assumes "a < b"
  shows "bisection_fixed market_price S K T r q ty (Suc n) (Fin a) (Fin b) \<noteq> Fin ((a + b) / 2)"
proof -
  let ?h = "halve market_price S K T r q ty"
  from assms have m: "a < (a + b) / 2" "(a + b) / 2 < b" by simp_all
  have sw: "(?h ^^ Suc n) (Fin a, Fin b) = (?h ^^ n) (?h (Fin a, Fin b))"
    by (simp add: funpow_swap1)
  from halve_cases [of market_price S K T r q ty a b] show ?thesis
  proof
    assume h: "?h (Fin a, Fin b) = (Fin a, Fin ((a + b) / 2))"
    from halve_funpow_inside [OF m(1), of n market_price S K T r q ty] obtain a' b' where
      "(?h ^^ n) (Fin a, Fin ((a + b) / 2)) = (Fin a', Fin b')"
      "a \<le> a'" "a' < b'" "b' \<le> (a + b) / 2" by blast
    then show ?thesis unfolding bisection_fixed_def sw h by simp
  next
    assume h: "?h (Fin a, Fin b) = (Fin ((a + b) / 2), Fin b)"
    from halve_funpow_inside [OF m(2), of n market_price S K T r q ty] obtain a' b' where
      "(?h ^^ n) (Fin ((a + b) / 2), Fin b) = (Fin a', Fin b')"
      "(a + b) / 2 \<le> a'" "a' < b'" "b' \<le> b" by blast
    then show ?thesis unfolding bisection_fixed_def sw h by simp
  qed
qed

lemma bisection_loop_trace:
  "i \<le> 200 \<Longrightarrow>
   \<exists>n \<le> nat (200 - i).
     snd (bisection_loop market_price S K T r q ty tol i lo hi) =
       midpoint ((halve market_price S K T r q ty ^^ n) (lo, hi)) \<and>
     (\<forall>m < n. \<not> \<bar>model_price_at S K T r q ty
                     (midpoint ((halve market_price S K T r q ty ^^ m) (lo, hi)))
                   - market_price\<bar> < tol) \<and>
     (n < nat (200 - i) \<longrightarrow>
        \<bar>model_price_at S K T r q ty
           (midpoint ((halve market_price S K T r q ty ^^ n) (lo, hi))) - market_price\<bar> < tol)"
proof (induction market_price S K T r q ty tol i lo hi rule: bisection_loop.induct)
  case (1 market_price S K T r q ty tol i lo hi)
  let ?h = "halve market_price S K T r q ty"
  let ?hit = "\<lambda>b. \<bar>model_price_at S K T r q ty (midpoint b) - market_price\<bar> < tol"
  let ?mid = "(lo + hi) / Fin 2"
  have mid: "midpoint (lo, hi) = ?mid" by (simp add: midpoint_def)
  show ?case
  proof (cases "i < 200")
    case False
    with "1.prems" have "i = 200" by simp
    then show ?thesis
      by (subst bisection_loop.simps) (simp add: mid)
  next
    case lt: True
    show ?thesis
    proof (cases "?hit (lo, hi)")
      case True
      then have "snd (bisection_loop market_price S K T r q ty tol i lo hi) = midpoint (lo, hi)"
        using lt by (subst bisection_loop.simps) (simp add: mid model_price_at_def Let_def)
      with True show ?thesis by (intro exI [of _ 0]) simp
    next
      case nohit: False
      define b' where "b' = ?h (lo, hi)"
      have step: "snd (bisection_loop market_price S K T r q ty tol i lo hi) =
          snd (bisection_loop market_price S K T r q ty tol (i + 1) (fst b') (snd b'))"
        using lt nohit unfolding b'_def
        by (subst bisection_loop.simps) (simp add: mid model_price_at_def Let_def halve_def)
      have ih: "\<exists>n \<le> nat (200 - (i + 1)).
          snd (bisection_loop market_price S K T r q ty tol (i + 1) (fst b') (snd b')) =
            midpoint ((?h ^^ n) (fst b', snd b')) \<and>
          (\<forall>m < n. \<not> ?hit ((?h ^^ m) (fst b', snd b'))) \<and>
          (n < nat (200 - (i + 1)) \<longrightarrow> ?hit ((?h ^^ n) (fst b', snd b')))"
      proof (cases "model_price_at S K T r q ty ?mid > market_price")
        case True
        then have b: "b' = (lo, ?mid)" by (simp add: b'_def halve_def mid)
        from lt have l: "i + 1 \<le> 200" by simp
        show ?thesis
          unfolding b
          using "1.IH"(1) [OF lt refl refl refl _ _ l]
            nohit True by (simp add: mid model_price_at_def)
      next
        case False
        then have b: "b' = (?mid, hi)" by (simp add: b'_def halve_def mid)
        from lt have l: "i + 1 \<le> 200" by simp
        show ?thesis
          unfolding b
          using "1.IH"(2) [OF lt refl refl refl _ _ l]
            nohit False by (simp add: mid model_price_at_def)
      qed
      then obtain n where n: "n \<le> nat (200 - (i + 1))"
        and r: "snd (bisection_loop market_price S K T r q ty tol (i + 1) (fst b') (snd b')) =
            midpoint ((?h ^^ n) (fst b', snd b'))"
        and before: "\<forall>m < n. \<not> ?hit ((?h ^^ m) (fst b', snd b'))"
        and at: "n < nat (200 - (i + 1)) \<longrightarrow> ?hit ((?h ^^ n) (fst b', snd b'))"
        by blast
      have sw: "(?h ^^ Suc m) (lo, hi) = (?h ^^ m) (fst b', snd b')" for m
        by (simp add: funpow_swap1 b'_def)
      have "Suc n \<le> nat (200 - i)" using n lt by simp
      moreover have "snd (bisection_loop market_price S K T r q ty tol i lo hi) =
          midpoint ((?h ^^ Suc n) (lo, hi))"
        unfolding step r sw ..
      moreover have "\<forall>m < Suc n. \<not> ?hit ((?h ^^ m) (lo, hi))"
      proof (intro allI impI)
        fix m assume "m < Suc n"
        show "\<not> ?hit ((?h ^^ m) (lo, hi))"
        proof (cases m)
          case 0
          with nohit show ?thesis by simp
        next
          case (Suc m')
          with \<open>m < Suc n\<close> before show ?thesis unfolding Suc sw by simp
        qed
      qed
      moreover have "Suc n < nat (200 - i) \<longrightarrow> ?hit ((?h ^^ Suc n) (lo, hi))"
        using at lt unfolding sw by simp
      ultimately show ?thesis by blast
    qed
  qed
qed


text \<open>
  C6, in the form that holds of the code. Whenever the Newton-Raphson loop of \<^verbatim>\<open>solve\<close> does not return, \<^verbatim>\<open>solve\<close>
  returns what bisection restarted from the fixed bracket \<open>[0.001, 5.0]\<close> returns, whatever
  the last Newton iterate was. That bisection halves the bracket by comparing the model
  price at the midpoint against the market price, at most 200 times: it returns the
  midpoint of the current bracket as soon as the model price there is within \<open>tol\<close> of
  the market price, and the midpoint of the final bracket after 200 halvings otherwise.
\<close>

theorem solve_fallback_bisection:
  assumes "snd (newton_loop market_price S K T r q ty tol max_iter 0
                 (initial_guess market_price S T)) = None"
  shows "solve market_price S K T r q ty tol max_iter =
           bisection_solve market_price S K T r q ty tol \<and>
         (\<exists>n \<le> 200.
            bisection_solve market_price S K T r q ty tol =
              bisection_fixed market_price S K T r q ty n (Fin 0.001) (Fin 5) \<and>
            (\<forall>m < n. \<not> \<bar>model_price_at S K T r q ty
                            (bisection_fixed market_price S K T r q ty m (Fin 0.001) (Fin 5))
                          - market_price\<bar> < tol) \<and>
            (n < 200 \<longrightarrow>
               \<bar>model_price_at S K T r q ty
                  (bisection_fixed market_price S K T r q ty n (Fin 0.001) (Fin 5))
                - market_price\<bar> < tol))"
proof
  show "solve market_price S K T r q ty tol max_iter =
           bisection_solve market_price S K T r q ty tol"
    using assms by (simp add: solve_def)
  have "(0::int) \<le> 200" by simp
  from bisection_loop_trace [OF this, of market_price S K T r q ty tol "Fin 0.001" "Fin 5"]
  show "\<exists>n \<le> 200.
            bisection_solve market_price S K T r q ty tol =
              bisection_fixed market_price S K T r q ty n (Fin 0.001) (Fin 5) \<and>
            (\<forall>m < n. \<not> \<bar>model_price_at S K T r q ty
                            (bisection_fixed market_price S K T r q ty m (Fin 0.001) (Fin 5))
                          - market_price\<bar> < tol) \<and>
            (n < 200 \<longrightarrow>
               \<bar>model_price_at S K T r q ty
                  (bisection_fixed market_price S K T r q ty n (Fin 0.001) (Fin 5))
                - market_price\<bar> < tol)"
    by (simp add: bisection_solve_def bisection_fixed_def)
qed

text \<open>A zero Newton budget: the loop is left at once and the fallback runs.\<close>

theorem solve_fallback_bisection_witness:
  "snd (newton_loop (Fin 10) (Fin 100) (Fin 100) (Fin 1) (Fin 0.05) (Fin 0) CALL (Fin (1 / 10 ^ 8))
         0 0 (initial_guess (Fin 10) (Fin 100) (Fin 1))) = None \<and>
   solve (Fin 10) (Fin 100) (Fin 100) (Fin 1) (Fin 0.05) (Fin 0) CALL (Fin (1 / 10 ^ 8)) 0 =
     bisection_solve (Fin 10) (Fin 100) (Fin 100) (Fin 1) (Fin 0.05) (Fin 0) CALL (Fin (1 / 10 ^ 8))"
proof -
  have n: "snd (newton_loop (Fin 10) (Fin 100) (Fin 100) (Fin 1) (Fin 0.05) (Fin 0) CALL
      (Fin (1 / 10 ^ 8)) 0 0 (initial_guess (Fin 10) (Fin 100) (Fin 1))) = None"
    by (subst newton_loop.simps) simp
  from solve_fallback_bisection [OF n] n show ?thesis by blast
qed

text \<open>A put struck at 2 on a spot of 100, 0.01 years from expiry, quoted at 0: at the first
  midpoint \<open>2.5005\<close> both \<open>d1\<close> and \<open>d2\<close> exceed 8 and the model price is exactly 0.\<close>

lemma sqrt_hundredth: "sqrt (1 / 100) = 1 / 10"
proof -
  have "sqrt (1 / 100) = sqrt ((1 / 10)\<^sup>2)" by (simp add: power2_eq_square)
  also have "\<dots> = 1 / 10" by (simp only: real_sqrt_abs)
  finally show ?thesis .
qed

lemma ln_50: "3 \<le> ln (50::real)"
proof -
  have "exp (3::real) = exp 1 ^ 3" by (simp add: exp_of_nat_mult [symmetric])
  also have "\<dots> \<le> 3 ^ 3" by (rule power_mono) (simp_all add: exp_le)
  also have "\<dots> \<le> (50::real)" by simp
  finally have "ln (exp (3::real)) \<le> ln 50" by (simp del: ln_exp)
  then show ?thesis by simp
qed

lemma worthless_put:
  "model_price_at (Fin 100) (Fin 2) (Fin (1 / 100)) (Fin 0) (Fin 0) PUT (Fin (5001 / 2000)) = Fin 0"
proof -
  let ?p = "\<lparr>p_S = Fin 100, p_K = Fin 2, p_T = Fin (1 / 100), p_r = Fin 0,
             p_sigma = Fin (5001 / 2000), p_q = Fin 0, p_type = PUT, p_style = EUROPEAN\<rparr>"
  define a :: real where
    "a = (ln (100 / 2) + (0 - 0 + 0.5 * (5001 / 2000) * (5001 / 2000)) * (1 / 100)) /
         (5001 / 2000 * sqrt (1 / 100))"
  have pr: "price (BlackScholes_price ?p) =
      Fin (2 * exp ((- 0) * (1 / 100)) * valof (norm_cdf (Fin (- (a - 5001 / 2000 * sqrt (1 / 100)))))
           - 100 * exp ((- 0) * (1 / 100)) * valof (norm_cdf (Fin (- a))))"
    using BlackScholes_price_Fin [of ?p 100 2 "1 / 100" 0 "5001 / 2000" 0]
    unfolding a_def by simp
  have "3 \<le> ln (100 / 2 :: real)" using ln_50 by simp
  then have "12 \<le> a" unfolding a_def sqrt_hundredth by (simp add: field_simps)
  then have big: "8 < a" "8 < a - 5001 / 2000 * sqrt (1 / 100)"
    unfolding sqrt_hundredth by simp_all
  have "valof (norm_cdf (Fin (- a))) = 0"
    "valof (norm_cdf (Fin (- (a - 5001 / 2000 * sqrt (1 / 100))))) = 0"
    using big by (simp_all add: norm_cdf_Fin)
  then show ?thesis unfolding model_price_at_def pr by simp
qed

text \<open>
  C6 as stated fails for that quote with a zero Newton budget: the fallback stops in its
  first iteration and returns the first midpoint \<open>2.5005\<close>, which 200 halvings followed by
  the final midpoint never return.
\<close>

theorem solve_fallback_counterexample:
  "snd (newton_loop (Fin 0) (Fin 100) (Fin 2) (Fin (1 / 100)) (Fin 0) (Fin 0) PUT (Fin (1 / 10 ^ 8)) 0 0
         (initial_guess (Fin 0) (Fin 100) (Fin (1 / 100)))) = None \<and>
   solve (Fin 0) (Fin 100) (Fin 2) (Fin (1 / 100)) (Fin 0) (Fin 0) PUT (Fin (1 / 10 ^ 8)) 0 = Fin (5001 / 2000) \<and>
   bisection_fixed (Fin 0) (Fin 100) (Fin 2) (Fin (1 / 100)) (Fin 0) (Fin 0) PUT 200 (Fin (1 / 1000)) (Fin 5) \<noteq> Fin (5001 / 2000)"
proof (intro conjI)
  show n: "snd (newton_loop (Fin 0) (Fin 100) (Fin 2) (Fin (1 / 100)) (Fin 0) (Fin 0) PUT (Fin (1 / 10 ^ 8)) 0 0
         (initial_guess (Fin 0) (Fin 100) (Fin (1 / 100)))) = None"
    by (subst newton_loop.simps) simp
  have "snd (bisection_loop (Fin 0) (Fin 100) (Fin 2) (Fin (1 / 100)) (Fin 0) (Fin 0) PUT (Fin (1 / 10 ^ 8)) 0 (Fin (1 / 1000)) (Fin 5)) =
      Fin (5001 / 2000)"
    using worthless_put
    by (subst bisection_loop.simps) (simp add: Let_def model_price_at_def)
  then show "solve (Fin 0) (Fin 100) (Fin 2) (Fin (1 / 100)) (Fin 0) (Fin 0) PUT (Fin (1 / 10 ^ 8)) 0 = Fin (5001 / 2000)"
    using n by (simp add: solve_def bisection_solve_def)
  have "bisection_fixed (Fin 0) (Fin 100) (Fin 2) (Fin (1 / 100)) (Fin 0) (Fin 0) PUT (Suc 199) (Fin (1 / 1000)) (Fin 5) \<noteq> Fin ((1 / 1000 + 5) / 2)"
    by (rule bisection_fixed_off_first_midpoint) simp
  then show "bisection_fixed (Fin 0) (Fin 100) (Fin 2) (Fin (1 / 100)) (Fin 0) (Fin 0) PUT 200 (Fin (1 / 1000)) (Fin 5) \<noteq> Fin (5001 / 2000)"
    by simp
qed

end
